theory Spec2Isabelle
  imports Main "HOL-Library.Sublist" "HOL-Library.AList"
begin

section \<open>Strings and the fragment of Python's \<open>re\<close> that the extractor uses\<close>

text \<open>
  Text is modelled as ASCII \<open>string\<close>s. Python's \<open>\<bslash>s\<close>, \<open>\<bslash>d\<close>, \<open>\<bslash>w\<close>,
  \<open>str.isdigit\<close>, \<open>str.strip\<close> and \<open>str.lower\<close> are given on the ASCII range. Text
  with characters beyond ASCII is outside the model: there Python's classes are larger
  (\<open>\<bslash>s\<close> and \<open>str.strip\<close> also take U+0085 and U+00A0, \<open>\<bslash>w\<close> takes accented letters,
  \<open>\<bslash>d\<close> takes other decimal digits).
\<close>

definition is_digit :: "char \<Rightarrow> bool" where
  "is_digit c = (c \<in> set ''0123456789'')"

definition is_upper :: "char \<Rightarrow> bool" where
  "is_upper c = (c \<in> set ''ABCDEFGHIJKLMNOPQRSTUVWXYZ'')"

definition is_lower :: "char \<Rightarrow> bool" where
  "is_lower c = (c \<in> set ''abcdefghijklmnopqrstuvwxyz'')"

text \<open>ASCII white space of \<open>\<bslash>s\<close> and \<open>str.strip()\<close>: tab, LF, VT, FF, CR, FS, GS, RS, US, space.\<close>

definition is_space :: "char \<Rightarrow> bool" where
  "is_space c = (c \<in> {CHR 0x09, CHR 0x0A, CHR 0x0B, CHR 0x0C, CHR 0x0D,
                       CHR 0x1C, CHR 0x1D, CHR 0x1E, CHR 0x1F, CHR '' ''})"

definition is_word :: "char \<Rightarrow> bool" where
  "is_word c = (is_digit c \<or> is_upper c \<or> is_lower c \<or> c = CHR ''_'')"

text \<open>The regular expression \<open>.\<close>: any character but a line feed.\<close>

definition is_dot :: "char \<Rightarrow> bool" where
  "is_dot c = (c \<noteq> CHR 0x0A)"

definition lower_char :: "char \<Rightarrow> char" where
  "lower_char c = (if is_upper c then char_of (of_char c + (32::nat)) else c)"

definition lower :: "string \<Rightarrow> string" where
  "lower s = map lower_char s"

definition strip :: "string \<Rightarrow> string" where
  "strip s = rev (dropWhile is_space (rev (dropWhile is_space s)))"

text \<open>\<open>sep.join(xs)\<close>\<close>

fun join :: "string \<Rightarrow> string list \<Rightarrow> string" where
  "join sep [] = []"
| "join sep [x] = x"
| "join sep (x # y # ys) = x @ sep @ join sep (y # ys)"

text \<open>\<open>s.find(sub)\<close>: the least index at which \<open>sub\<close> occurs; \<open>None\<close> is Python's \<open>-1\<close>.\<close>

fun str_find :: "string \<Rightarrow> string \<Rightarrow> nat option" where
  "str_find [] sub = (if sub = [] then Some 0 else None)"
| "str_find (c # cs) sub =
     (if prefix sub (c # cs) then Some 0 else map_option Suc (str_find cs sub))"

text \<open>\<open>sub in s\<close>\<close>

definition contains :: "string \<Rightarrow> string \<Rightarrow> bool" where
  "contains s sub = (str_find s sub \<noteq> None)"

subsection \<open>A backtracking matcher\<close>

text \<open>
  A pattern is a sequence of items: one character of a class, a greedy \<open>*\<close> or \<open>+\<close> of a
  class, or the anchor \<open>$\<close>. \<open>rmatch\<close> tries the alternatives in the order of Python's
  backtracking engine (longest repetition first) and returns the text each item consumed
  together with the unconsumed rest. Its second argument accumulates what the repetition
  at the head of the pattern has consumed so far.
\<close>

datatype item = One "char \<Rightarrow> bool" | Star "char \<Rightarrow> bool" | Plus "char \<Rightarrow> bool" | Eol

type_synonym pattern = "item list"

fun rmatch :: "pattern \<Rightarrow> string \<Rightarrow> string \<Rightarrow> (string list \<times> string) option" where
  "rmatch [] acc s = Some ([], s)"
| "rmatch (One p # r) acc [] = None"
| "rmatch (One p # r) acc (c # cs) =
     (if p c then map_option (\<lambda>(ps, rest). ([c] # ps, rest)) (rmatch r [] cs) else None)"
| "rmatch (Plus p # r) acc [] = None"
| "rmatch (Plus p # r) acc (c # cs) =
     (if p c then rmatch (Star p # r) [c] cs else None)"
| "rmatch (Star p # r) acc [] =
     map_option (\<lambda>(ps, rest). (acc # ps, rest)) (rmatch r [] [])"
| "rmatch (Star p # r) acc (c # cs) =
     (if p c then
        (case rmatch (Star p # r) (acc @ [c]) cs of
           Some m \<Rightarrow> Some m
         | None \<Rightarrow> map_option (\<lambda>(ps, rest). (acc # ps, rest)) (rmatch r [] (c # cs)))
      else map_option (\<lambda>(ps, rest). (acc # ps, rest)) (rmatch r [] (c # cs)))"
| "rmatch (Eol # r) acc s =
     (if s = [] \<or> s = [CHR 0x0A]
      then map_option (\<lambda>(ps, rest). ([] # ps, rest)) (rmatch r [] s) else None)"

text \<open>\<open>re.match(pat, s)\<close>: a match at the start of \<open>s\<close>.\<close>

definition re_match :: "pattern \<Rightarrow> string \<Rightarrow> (string list \<times> string) option" where
  "re_match pat s = rmatch pat [] s"

text \<open>
  \<open>re.search(pat, s)\<close>: the leftmost match, as the text before it, the groups, and the
  text after it.
\<close>

fun re_search :: "pattern \<Rightarrow> string \<Rightarrow> (string \<times> string list \<times> string) option" where
  "re_search pat [] =
     (case re_match pat [] of
        Some (ps, rest) \<Rightarrow> Some ([], ps, rest)
      | None \<Rightarrow> None)"
| "re_search pat (c # cs) =
     (case re_match pat (c # cs) of
        Some (ps, rest) \<Rightarrow> Some ([], ps, rest)
      | None \<Rightarrow> map_option (\<lambda>(pre, ps, post). (c # pre, ps, post)) (re_search pat cs))"

text \<open>
  \<open>re.findall(pat, s)\<close> and \<open>re.sub(pat, repl, s)\<close> for patterns without groups that never
  match the empty string (all those of the extractor): the scan resumes after each match.
  The test \<open>length post < length s\<close> holds after every non-empty match.
\<close>

function re_findall :: "pattern \<Rightarrow> string \<Rightarrow> string list" where
  "re_findall pat s =
     (case re_search pat s of
        None \<Rightarrow> []
      | Some (pre, ps, post) \<Rightarrow>
          concat ps # (if length post < length s then re_findall pat post else []))"
  by pat_completeness auto
termination
  by (relation "measure (\<lambda>(pat, s). length s)") auto

declare re_findall.simps [simp del]

function re_sub :: "pattern \<Rightarrow> string \<Rightarrow> string \<Rightarrow> string" where
  "re_sub pat repl s =
     (case re_search pat s of
        None \<Rightarrow> s
      | Some (pre, ps, post) \<Rightarrow>
          pre @ repl @ (if length post < length s then re_sub pat repl post else post))"
  by pat_completeness auto
termination
  by (relation "measure (\<lambda>(pat, repl, s). length s)") auto

declare re_sub.simps [simp del]

text \<open>A literal string as a pattern (\<open>re.escape\<close>).\<close>

definition lit :: "string \<Rightarrow> pattern" where
  "lit s = map (\<lambda>c. One (\<lambda>d. d = c)) s"

section \<open>The transaction extraction engine (\<open>transaction_extractor.py\<close>)\<close>

record transaction =
  asset :: string
  ticker :: string
  owner :: string
  owner_code :: string
  transaction_type :: string
  transaction_date :: string
  notification_date :: string
  amount :: string

definition OWNER_CODES :: "(string \<times> string) list" where
  "OWNER_CODES = [(''SP'', ''Spouse''), (''DC'', ''Dependent Child''), (''JT'', ''Joint'')]"

definition AMOUNT_RANGES :: "(int \<times> string) list" where
  "AMOUNT_RANGES =
     [(15000, ''$1,001 - $15,000''),
      (50000, ''$15,001 - $50,000''),
      (100000, ''$50,001 - $100,000''),
      (250000, ''$100,001 - $250,000''),
      (500000, ''$250,001 - $500,000''),
      (1000000, ''$500,001 - $1,000,000''),
      (5000000, ''$1,000,001 - $5,000,000''),
      (25000000, ''$5,000,001 - $25,000,000''),
      (50000000, ''$25,000,001 - $50,000,000''),
      (100000000, ''Over $50,000,000'')]"

subsection \<open>The patterns\<close>

text \<open>\<^verbatim>\<open>\d{2}/\d{2}/\d{4}\<close>\<close>

definition date_pat :: pattern where
  "date_pat =
     [One is_digit, One is_digit, One (\<lambda>c. c = CHR ''/''),
      One is_digit, One is_digit, One (\<lambda>c. c = CHR ''/''),
      One is_digit, One is_digit, One is_digit, One is_digit]"

text \<open>\<^verbatim>\<open>\$[\d,]+\<close>\<close>

definition amount_pat :: pattern where
  "amount_pat = [One (\<lambda>c. c = CHR ''$''), Plus (\<lambda>c. is_digit c \<or> c = CHR '','')]"

text \<open>\<^verbatim>\<open>\(([A-Z0-9.]+)\)\<close>; group 1 is the second item.\<close>

definition ticker_char :: "char \<Rightarrow> bool" where
  "ticker_char c = (is_upper c \<or> is_digit c \<or> c = CHR ''.'')"

definition ticker_pattern :: pattern where
  "ticker_pattern = [One (\<lambda>c. c = CHR ''(''), Plus ticker_char, One (\<lambda>c. c = CHR '')'')]"

text \<open>
  \<^verbatim>\<open>^(SP|DC|JT)\s+(.+)\<close> with the alternative \<open>code\<close> chosen; group 2 is the last item.
\<close>

definition owner_pat :: "string \<Rightarrow> pattern" where
  "owner_pat code = lit code @ [Plus is_space, Plus is_dot]"

text \<open>The cut-off patterns of overflow lines: \<^verbatim>\<open>\$\d\<close>, \<^verbatim>\<open>\$\s*\d\<close>, \<^verbatim>\<open>-\s*\$\<close>.\<close>

definition cutoff_patterns :: "pattern list" where
  "cutoff_patterns =
     [date_pat,
      [One (\<lambda>c. c = CHR ''$''), One is_digit],
      [One (\<lambda>c. c = CHR ''$''), Star is_space, One is_digit],
      [One (\<lambda>c. c = CHR ''-''), Star is_space, One (\<lambda>c. c = CHR ''$'')]]"

text \<open>\<^verbatim>\<open>\s*\(TICKER\)\s*.*$\<close> with the ticker escaped.\<close>

definition ticker_tail_pat :: "string \<Rightarrow> pattern" where
  "ticker_tail_pat t =
     [Star is_space, One (\<lambda>c. c = CHR ''('')] @ lit t @
     [One (\<lambda>c. c = CHR '')''), Star is_space, Star is_dot, Eol]"

text \<open>\<^verbatim>\<open>[^\w\s\.\-&(),]\<close>, \<^verbatim>\<open>\s+\<close> and \<^verbatim>\<open>\s*\[[A-Z]+\]\s*\<close>\<close>

definition special_pat :: pattern where
  "special_pat = [One (\<lambda>c. \<not> (is_word c \<or> is_space c \<or> c \<in> set ''.-&(),''))]"

definition spaces_pat :: pattern where
  "spaces_pat = [Plus is_space]"

definition bracket_pat :: pattern where
  "bracket_pat =
     [Star is_space, One (\<lambda>c. c = CHR ''[''), Plus is_upper, One (\<lambda>c. c = CHR '']''),
      Star is_space]"

subsection \<open>Integers and their rendering\<close>

text \<open>
  \<open>int(raw)\<close> on a string of decimal digits: \<open>None\<close> is the \<open>ValueError\<close> raised on the
  empty string, on a character that is no digit, and (CPython's default
  \<open>sys.get_int_max_str_digits()\<close>) on more than 4300 digits.
\<close>

definition digit_val :: "char \<Rightarrow> int" where
  "digit_val c = int (of_char c) - 48"

definition py_int :: "string \<Rightarrow> int option" where
  "py_int raw =
     (if raw = [] \<or> \<not> list_all is_digit raw \<or> 4300 < length raw then None
      else Some (foldl (\<lambda>a c. 10 * a + digit_val c) 0 raw))"

text \<open>\<open>f"{v:,}"\<close> for \<open>v \<ge> 0\<close>: decimal digits, grouped in threes by commas.\<close>

definition digit_char :: "nat \<Rightarrow> char" where
  "digit_char d = ''0123456789'' ! d"

function dec :: "nat \<Rightarrow> string" where
  "dec n = (if n < 10 then [digit_char n] else dec (n div 10) @ [digit_char (n mod 10)])"
  by pat_completeness auto
termination
  by (relation "measure id") auto

declare dec.simps [simp del]

function format_commas :: "nat \<Rightarrow> string" where
  "format_commas n =
     (if n < 1000 then dec n
      else format_commas (n div 1000) @ '','' @
           [digit_char (n mod 1000 div 100), digit_char (n mod 100 div 10), digit_char (n mod 10)])"
  by pat_completeness auto
termination
  by (relation "measure id") auto

declare format_commas.simps [simp del]

subsection \<open>Line classification\<close>

definition is_transaction_line :: "string \<Rightarrow> bool" where
  "is_transaction_line line =
     ((contains line ''P '' \<or> contains line ''S '') \<and>
      contains line ''$'' \<and>
      list_ex is_digit line)"

definition is_stock_transaction :: "string \<Rightarrow> string list \<Rightarrow> bool" where
  "is_stock_transaction line context_lines =
     (if contains line ''[ST]'' then True
      else list_ex (\<lambda>context_line. contains context_line ''[ST]'') context_lines)"

text \<open>\<open>lines[start:end]\<close> with \<open>start = index\<close> and \<open>end = min(len(lines), index + context + 1)\<close>\<close>

definition get_context_lines :: "string list \<Rightarrow> nat \<Rightarrow> nat \<Rightarrow> string list" where
  "get_context_lines lines index context =
     (let start = index; end = min (length lines) (index + context + 1)
      in take (end - start) (drop start lines))"

definition extract_owner_code :: "string \<Rightarrow> string \<times> string" where
  "extract_owner_code line =
     (case re_match (owner_pat ''SP'') line of
        Some (ps, rest) \<Rightarrow> (''SP'', last ps)
      | None \<Rightarrow>
     (case re_match (owner_pat ''DC'') line of
        Some (ps, rest) \<Rightarrow> (''DC'', last ps)
      | None \<Rightarrow>
     (case re_match (owner_pat ''JT'') line of
        Some (ps, rest) \<Rightarrow> (''JT'', last ps)
      | None \<Rightarrow> ([], line))))"

definition get_transaction_type :: "string \<Rightarrow> string" where
  "get_transaction_type line =
     (if contains line '' P '' then ''Purchase''
      else if contains line '' S '' then ''Sale''
      else ''Unknown'')"

subsection \<open>Ticker and asset name\<close>

definition clean_asset_name :: "string \<Rightarrow> string" where
  "clean_asset_name asset_name =
     (if asset_name = [] then []
      else
        let cleaned = re_sub special_pat '' '' asset_name;
            cleaned = strip (re_sub spaces_pat '' '' cleaned);
            cleaned = re_sub bracket_pat [] cleaned
        in cleaned)"

text \<open>
  The first loop of \<open>_extract_asset_info\<close>: the first context line with a ticker match,
  as the ticker (group 1) and the index of the line.
\<close>

fun find_ticker :: "string list \<Rightarrow> nat \<Rightarrow> (string \<times> nat) option" where
  "find_ticker [] i = None"
| "find_ticker (context_line # ls) i =
     (case re_search ticker_pattern context_line of
        Some (pre, ps, post) \<Rightarrow> Some (ps ! 1, i)
      | None \<Rightarrow> find_ticker ls (Suc i))"

text \<open>The first line is cut at the first \<open>"P "\<close>, or else at the first \<open>"S "\<close>.\<close>

definition cut_first_line :: "string \<Rightarrow> string" where
  "cut_first_line line_text =
     (case str_find line_text ''P '' of
        Some marker_index \<Rightarrow> take marker_index line_text
      | None \<Rightarrow>
     (case str_find line_text ''S '' of
        Some marker_index \<Rightarrow> take marker_index line_text
      | None \<Rightarrow> line_text))"

text \<open>An overflow line is cut at the start of the match of the first pattern that matches.\<close>

fun cut_overflow_line :: "pattern list \<Rightarrow> string \<Rightarrow> string" where
  "cut_overflow_line [] line_text = line_text"
| "cut_overflow_line (pat # pats) line_text =
     (case re_search pat line_text of
        Some (pre, ps, post) \<Rightarrow> pre
      | None \<Rightarrow> cut_overflow_line pats line_text)"

definition extract_asset_info :: "string \<Rightarrow> string list \<Rightarrow> string \<times> string" where
  "extract_asset_info line context_lines =
     (case find_ticker context_lines 0 of
        None \<Rightarrow> ([], [])
      | Some (ticker', ticker_line_index) \<Rightarrow>
          if ticker' = [] then ([], [])
          else
            let asset_lines =
                  map (\<lambda>j. strip (if j = 0 then cut_first_line (context_lines ! j)
                                   else cut_overflow_line cutoff_patterns (context_lines ! j)))
                      [0 ..< ticker_line_index];
                ticker_line_before_ticker =
                  re_sub (ticker_tail_pat ticker') [] (context_lines ! ticker_line_index);
                asset_name = join '' '' (asset_lines @ [strip ticker_line_before_ticker])
            in (ticker', clean_asset_name asset_name))"

subsection \<open>Dates and amounts\<close>

definition extract_dates :: "string \<Rightarrow> string list" where
  "extract_dates line = re_findall date_pat line"

text \<open>The loop over \<open>AMOUNT_RANGES\<close>, falling through to the label after it.\<close>

fun range_of :: "(int \<times> string) list \<Rightarrow> int \<Rightarrow> string" where
  "range_of [] amount_value = ''Over $50,000,000''"
| "range_of ((threshold, range_str) # rs) amount_value =
     (if amount_value \<le> threshold then range_str else range_of rs amount_value)"

definition extract_and_categorize_amount :: "string \<Rightarrow> string" where
  "extract_and_categorize_amount line =
     (case re_search amount_pat line of
        None \<Rightarrow> []
      | Some (pre, ps, post) \<Rightarrow>
          let amount_match = concat ps;
              raw_amount = filter (\<lambda>c. c \<noteq> CHR '','') (filter (\<lambda>c. c \<noteq> CHR ''$'') amount_match)
          in (case py_int raw_amount of
                None \<Rightarrow> amount_match
              | Some amount_value \<Rightarrow>
                  if amount_value < 1000 then ''$'' @ format_commas (nat amount_value)
                  else range_of AMOUNT_RANGES amount_value))"

subsection \<open>Parsing a candidate line\<close>

definition owner_of :: "string \<Rightarrow> string" where
  "owner_of code = (case map_of OWNER_CODES code of Some v \<Rightarrow> v | None \<Rightarrow> ''Self'')"

definition parse_transaction_line :: "string \<Rightarrow> string list \<Rightarrow> transaction option" where
  "parse_transaction_line line context_lines =
     (let (owner_code', line_without_owner) = extract_owner_code line;
          transaction_type' = get_transaction_type line;
          (ticker', asset_name) = extract_asset_info line context_lines;
          dates = extract_dates line;
          amount' = extract_and_categorize_amount line
      in if asset_name = [] \<or> length dates < 2 \<or> amount' = [] then None
         else Some \<lparr>asset = strip asset_name,
                    ticker = ticker',
                    owner = owner_of owner_code',
                    owner_code = owner_code',
                    transaction_type = transaction_type',
                    transaction_date = dates ! 0,
                    notification_date = (if 1 < length dates then dates ! 1 else []),
                    amount = amount'\<rparr>)"

definition extract_transactions_from_lines :: "string list \<Rightarrow> transaction list" where
  "extract_transactions_from_lines lines =
     concat (map (\<lambda>i.
        let line = lines ! i in
        if is_transaction_line line then
          let context_lines = get_context_lines lines i 2 in
          if is_stock_transaction line context_lines then
            (case parse_transaction_line line context_lines of
               Some t \<Rightarrow> [t]
             | None \<Rightarrow> [])
          else []
        else []) [0 ..< length lines])"

section \<open>Error classification of the pipeline (\<open>daily_run.py\<close>)\<close>

definition permanent_patterns :: "string list" where
  "permanent_patterns =
     [''corrupted'', ''invalid format'', ''unsupported'',
      ''malformed'', ''no transactions found'', ''file not found'',
      ''access denied'', ''invalid pdf'', ''permission denied'']"

definition is_permanent_error :: "string \<Rightarrow> bool" where
  "is_permanent_error error_message =
     (let error_lower = lower error_message
      in list_ex (\<lambda>pattern. contains error_lower pattern) permanent_patterns)"

section \<open>The filing record store (\<open>data_manager.py\<close>)\<close>

subsection \<open>The two persisted collections\<close>

text \<open>
  The registry (\<open>congress_filings.json\<close>) and the ledger (\<open>trading_data.json\<close>) as typed
  records. Python dictionaries keep insertion order and the loops below depend on it, so a
  dictionary is an association list with distinct keys. A key that may be absent is an
  \<open>option\<close>.
\<close>

record filing =
  pdf_id :: string
  year :: string
  filing_type :: string
  pdf_link :: string
  processing_status :: "string option"
  processed_at :: "string option"
  has_stock_transactions :: "bool option"
  failed_at :: "string option"
  error :: "string option"

record member_data =
  name :: string
  office :: string
  filings :: "filing list"

record congress_data =
  last_updated :: "string option"
  total_members :: nat
  total_filings :: nat
  members :: "(string \<times> member_data) list"

text \<open>
  A work item: the dictionary built by \<open>identify_pending_filings\<close> carries \<open>member_key\<close>,
  the one queued in \<open>pending_processing\<close> carries \<open>discovered_at\<close>.
\<close>

record pending_info =
  member_name :: string
  info_pdf_id :: string
  pdf_url :: string
  info_filing_type :: string
  info_year :: string

record filing_info = pending_info +
  member_key :: string

record pending_entry = pending_info +
  discovered_at :: string

text \<open>
  The result dictionary handed to \<open>mark_filing_processed\<close>: the keys the store reads
  (\<open>error\<close>, \<open>transaction_count\<close>) may be absent; the others are those the pipeline sets.
\<close>

record processing_result =
  result_pdf_url :: string
  member_info :: "(string \<times> string) list"
  stock_transaction_count :: nat
  parsed_at :: string
  transactions :: "transaction list"
  result_error :: "string option"
  transaction_count :: "int option"

text \<open>
  A value of \<open>processed_filings\<close>: the result dictionary itself, or the dictionary
  \<open>{"processed_at": t, "result": {"error": m, "permanent": b}}\<close> of the error path.
\<close>

datatype processed = Result processing_result | ErrorRecord string string bool

record summary_data =
  total_pdfs :: nat
  processed_pdfs :: nat
  pending_pdfs :: nat

record trading_data =
  trading_last_updated :: string
  pending_processing :: "pending_entry list"
  summary :: summary_data
  processed_filings :: "(string \<times> processed) list"

text \<open>
  The state the store works on: each file is absent or holds a well-formed collection;
  \<open>stdout\<close> collects what is printed.
\<close>

record store =
  congress_file :: "congress_data option"
  trading_file :: "trading_data option"
  stdout :: "string list"

subsection \<open>Loading and saving well-formed files\<close>

text \<open>
  \<open>load_congress_data\<close> and \<open>load_trading_data\<close> on a well-formed file: the content, or
  the empty collection when the file does not exist. (Loading a malformed registry file is
  modelled on JSON values in the last section.)
\<close>

definition read_congress_data :: "store \<Rightarrow> congress_data" where
  "read_congress_data st =
     (case congress_file st of
        None \<Rightarrow> \<lparr>last_updated = None, total_members = 0, total_filings = 0, members = []\<rparr>
      | Some data \<Rightarrow> data)"

definition read_trading_data :: "store \<Rightarrow> trading_data" where
  "read_trading_data st =
     (case trading_file st of
        None \<Rightarrow> \<lparr>trading_last_updated = [],
                 pending_processing = [],
                 summary = \<lparr>total_pdfs = 0, processed_pdfs = 0, pending_pdfs = 0\<rparr>,
                 processed_filings = []\<rparr>
      | Some data \<Rightarrow> data)"

text \<open>
  Saving recomputes the derived counts, stamps the time \<open>now\<close> and replaces the file
  (\<open>_atomic_write\<close> without a failure; its failures are modelled below).
\<close>

definition save_congress_data :: "string \<Rightarrow> congress_data \<Rightarrow> store \<Rightarrow> store" where
  "save_congress_data now data st =
     st\<lparr>congress_file := Some
        (data\<lparr>total_members := length (members data),
              total_filings := sum_list (map (\<lambda>(k, member). length (filings member)) (members data)),
              last_updated := Some now\<rparr>)\<rparr>"

definition save_trading_data :: "string \<Rightarrow> trading_data \<Rightarrow> store \<Rightarrow> store" where
  "save_trading_data now data st =
     st\<lparr>trading_file := Some
        (data\<lparr>summary := (summary data)\<lparr>processed_pdfs := length (processed_filings data),
                                        pending_pdfs := length (pending_processing data)\<rparr>,
              trading_last_updated := now\<rparr>)\<rparr>"

subsection \<open>Locating a filing by its link\<close>

text \<open>
  The nested loops of \<open>mark_filing_processed\<close> and \<open>mark_filing_error\<close>: the first filing
  whose \<open>pdf_link\<close> is \<open>url\<close> is changed by \<open>f\<close>, and both loops stop (\<open>break\<close>). The
  flag is \<open>congress_updated\<close>.
\<close>

fun update_filings :: "(filing \<Rightarrow> filing) \<Rightarrow> string \<Rightarrow> filing list \<Rightarrow> filing list \<times> bool" where
  "update_filings f url [] = ([], False)"
| "update_filings f url (x # xs) =
     (if pdf_link x = url then (f x # xs, True)
      else (let (xs', congress_updated) = update_filings f url xs
            in (x # xs', congress_updated)))"

fun update_members ::
  "(filing \<Rightarrow> filing) \<Rightarrow> string \<Rightarrow> (string \<times> member_data) list \<Rightarrow>
   (string \<times> member_data) list \<times> bool" where
  "update_members f url [] = ([], False)"
| "update_members f url ((k, m) # ms) =
     (let (fs', congress_updated) = update_filings f url (filings m)
      in if congress_updated then ((k, m\<lparr>filings := fs'\<rparr>) # ms, True)
         else (let (ms', congress_updated) = update_members f url ms
               in ((k, m) # ms', congress_updated)))"

subsection \<open>The document identifier of a link\<close>

text \<open>\<open>s.split("/")[-1]\<close>: the text after the last slash.\<close>

definition last_segment :: "string \<Rightarrow> string" where
  "last_segment s = rev (takeWhile (\<lambda>c. c \<noteq> CHR ''/'') (rev s))"

text \<open>\<open>s.replace(old, new)\<close> for a non-empty \<open>old\<close>: every occurrence, from the left.\<close>

function str_replace :: "string \<Rightarrow> string \<Rightarrow> string \<Rightarrow> string" where
  "str_replace old new s =
     (if s = [] \<or> old = [] then s
      else if prefix old s then new @ str_replace old new (drop (length old) s)
      else hd s # str_replace old new (tl s))"
  by pat_completeness auto
termination
  by (relation "measure (\<lambda>(old, new, s). length s)") auto

declare str_replace.simps [simp del]

definition filing_no_of :: "string \<Rightarrow> string" where
  "filing_no_of url = str_replace ''.pdf'' [] (last_segment url)"

subsection \<open>Status transitions\<close>

definition mark_filing_processed ::
  "string \<Rightarrow> string \<Rightarrow> processing_result option \<Rightarrow> store \<Rightarrow> store" where
  "mark_filing_processed now url result st =
     (let trading = read_trading_data st;
          congress = read_congress_data st;
          (members', congress_updated) =
             update_members
               (\<lambda>x. let x = x\<lparr>processing_status := Some ''processed'', processed_at := Some now\<rparr>
                    in (case result of
                          None \<Rightarrow> x
                        | Some r \<Rightarrow>
                            if result_error r = None \<or> result_error r = Some []
                            then x\<lparr>has_stock_transactions :=
                                     Some ((case transaction_count r of None \<Rightarrow> 0 | Some n \<Rightarrow> n) > 0)\<rparr>
                            else x))
               url (members congress);
          congress = congress\<lparr>members := members'\<rparr>;
          trading = trading\<lparr>pending_processing :=
                      filter (\<lambda>item. pdf_url item \<noteq> url) (pending_processing trading)\<rparr>;
          trading = (case result of
                       None \<Rightarrow> trading
                     | Some r \<Rightarrow>
                         trading\<lparr>processed_filings :=
                           AList.update (filing_no_of url) (Result r) (processed_filings trading)\<rparr>);
          st = (if congress_updated then save_congress_data now congress st else st)
      in save_trading_data now trading st)"

definition mark_filing_error :: "string \<Rightarrow> string \<Rightarrow> string \<Rightarrow> bool \<Rightarrow> store \<Rightarrow> store" where
  "mark_filing_error now url error_message is_permanent st =
     (let trading = read_trading_data st
      in if is_permanent then
           (let trading = trading\<lparr>pending_processing :=
                            filter (\<lambda>item. pdf_url item \<noteq> url) (pending_processing trading)\<rparr>;
                trading = trading\<lparr>processed_filings :=
                            AList.update url (ErrorRecord now error_message True)
                              (processed_filings trading)\<rparr>;
                congress = read_congress_data st;
                (members', congress_updated) =
                   update_members
                     (\<lambda>x. x\<lparr>processing_status := Some ''failed'', failed_at := Some now,
                            error := Some error_message\<rparr>)
                     url (members congress);
                congress = congress\<lparr>members := members'\<rparr>;
                st = (if congress_updated then save_congress_data now congress st else st)
            in save_trading_data now trading st)
         else
           (let st = st\<lparr>stdout := stdout st @
                       [''Temporary error for '' @ url @ '': '' @ error_message @ '' (will retry)'']\<rparr>
            in save_trading_data now trading st))"

section \<open>The filing status manager (\<open>filing_status_manager.py\<close>)\<close>

definition STATUS_PENDING :: string where
  "STATUS_PENDING = ''pending''"

definition needs_processing :: "filing \<Rightarrow> bool" where
  "needs_processing x =
     (processing_status x = None \<or> processing_status x = Some STATUS_PENDING)"

definition identify_pending_filings :: "store \<Rightarrow> filing_info list \<times> store" where
  "identify_pending_filings st =
     (let congress = read_congress_data st;
          pending_filings =
            concat (map (\<lambda>(key, member).
              map (\<lambda>x. \<lparr>member_name = name member,
                         info_pdf_id = pdf_id x,
                         pdf_url = pdf_link x,
                         info_filing_type = filing_type x,
                         info_year = year x,
                         member_key = key\<rparr>)
                  (filter needs_processing (filings member)))
              (members congress))
      in (pending_filings,
          st\<lparr>stdout := stdout st @
               [''Identified '' @ dec (length pending_filings) @ '' pending filings'']\<rparr>))"

section \<open>Atomic writes and their failures (\<open>DataManager._atomic_write\<close>)\<close>

text \<open>
  A directory is a map from paths to file texts. \<open>_atomic_write(file_path, data)\<close> runs
  against the directory \<open>fs\<close>; \<open>tmp\<close> is the name \<open>NamedTemporaryFile\<close> picks, \<open>text\<close>
  the JSON text of \<open>data\<close>. The environment decides where an exception \<open>e\<close> is raised:
  when the temporary file is created, inside \<open>json.dump\<close> after \<open>n\<close> characters reached
  the file (a full disk, a value that is not serialisable), when the \<open>with\<close> block closes
  the file, or in \<open>os.replace\<close>.
\<close>

datatype exc =
  ValueError string | RuntimeError string | JSONDecodeError | UnicodeDecodeError
  | TypeError | AttributeError | OSError

datatype fault = NoFault | CreateFails | DumpFails nat | CloseFails | ReplaceFails

type_synonym path = string

type_synonym directory = "path \<rightharpoonup> string"

text \<open>
  The handler \<open>if 'temp_path' in locals() and temp_path.exists(): temp_path.unlink()\<close>;
  \<open>temp_path\<close> is \<open>None\<close> while the local variable is unbound.
\<close>

definition cleanup :: "path option \<Rightarrow> directory \<Rightarrow> directory" where
  "cleanup temp_path fs =
     (case temp_path of
        None \<Rightarrow> fs
      | Some p \<Rightarrow> if p \<in> dom fs then fs(p := None) else fs)"

text \<open>
  The result is the exception that leaves the function, if any, and the directory after.
  \<open>temp_path\<close> is assigned after \<open>json.dump\<close> returned, and the file was opened with
  \<open>delete=False\<close>.
\<close>

definition atomic_write ::
  "directory \<Rightarrow> path \<Rightarrow> path \<Rightarrow> string \<Rightarrow> fault \<Rightarrow> exc \<Rightarrow> exc option \<times> directory" where
  "atomic_write fs file_path tmp text fault e =
     (case fault of
        CreateFails \<Rightarrow> (Some e, cleanup None fs)
      | DumpFails n \<Rightarrow> (Some e, cleanup None (fs(tmp \<mapsto> take n text)))
      | CloseFails \<Rightarrow> (Some e, cleanup (Some tmp) (fs(tmp \<mapsto> text)))
      | ReplaceFails \<Rightarrow> (Some e, cleanup (Some tmp) (fs(tmp \<mapsto> text)))
      | NoFault \<Rightarrow> (None, (fs(tmp := None))(file_path \<mapsto> text)))"

section \<open>Loading a registry file of any content (\<open>DataManager.load_congress_data\<close>)\<close>

datatype json =
  JNull | JBool bool | JNum int | JStr string | JArr "json list" | JObj "(string \<times> json) list"

text \<open>
  The file is absent, holds bytes that are not UTF-8 (reading them raises
  \<open>UnicodeDecodeError\<close>), holds text that \<open>json.load\<close> rejects with \<open>JSONDecodeError\<close>, or
  holds the text of a value. (An integer literal of more than 4300 digits, which
  \<open>json.load\<close> rejects with a plain \<open>ValueError\<close>, is not among the values.)
\<close>

datatype file_content = Missing | NotUtf8 | NotJson | Json json

text \<open>\<open>len(v)\<close>\<close>

fun py_len :: "json \<Rightarrow> exc + nat" where
  "py_len (JObj kvs) = Inr (length kvs)"
| "py_len (JArr xs) = Inr (length xs)"
| "py_len (JStr s) = Inr (length s)"
| "py_len v = Inl TypeError"

text \<open>\<open>d.get(key, default)\<close> and \<open>d.values()\<close>; only a dictionary has them.\<close>

fun py_get :: "json \<Rightarrow> string \<Rightarrow> json \<Rightarrow> exc + json" where
  "py_get (JObj kvs) key dflt =
     Inr (case map_of kvs key of Some v \<Rightarrow> v | None \<Rightarrow> dflt)"
| "py_get v key dflt = Inl AttributeError"

fun py_values :: "json \<Rightarrow> exc + json list" where
  "py_values (JObj kvs) = Inr (map snd kvs)"
| "py_values v = Inl AttributeError"

text \<open>\<open>sum(len(member.get("filings", [])) for member in ...)\<close>\<close>

fun sum_filings :: "json list \<Rightarrow> exc + nat" where
  "sum_filings [] = Inr 0"
| "sum_filings (member # rest) =
     (case py_get member ''filings'' (JArr []) of
        Inl e \<Rightarrow> Inl e
      | Inr fs \<Rightarrow>
     (case py_len fs of
        Inl e \<Rightarrow> Inl e
      | Inr n \<Rightarrow>
     (case sum_filings rest of
        Inl e \<Rightarrow> Inl e
      | Inr m \<Rightarrow> Inr (n + m))))"

text \<open>The statements of the \<open>try\<close> block after \<open>json.load\<close> returned \<open>data\<close>.\<close>

definition validate_congress :: "json \<Rightarrow> exc + json" where
  "validate_congress data =
     (case data of
        JObj kvs \<Rightarrow>
          if map_of kvs ''members'' = None then Inl (ValueError ''Invalid congress data structure'')
          else
            (case (if map_of kvs ''total_members'' = None
                   then (case py_get data ''members'' (JObj []) of
                           Inl e \<Rightarrow> Inl e
                         | Inr ms \<Rightarrow>
                        (case py_len ms of
                           Inl e \<Rightarrow> Inl e
                         | Inr n \<Rightarrow> Inr (AList.update ''total_members'' (JNum (int n)) kvs)))
                   else Inr kvs) of
               Inl e \<Rightarrow> Inl e
             | Inr kvs1 \<Rightarrow>
                 if map_of kvs1 ''total_filings'' = None
                 then (case py_get (JObj kvs1) ''members'' (JObj []) of
                         Inl e \<Rightarrow> Inl e
                       | Inr ms \<Rightarrow>
                      (case py_values ms of
                         Inl e \<Rightarrow> Inl e
                       | Inr vs \<Rightarrow>
                      (case sum_filings vs of
                         Inl e \<Rightarrow> Inl e
                       | Inr n \<Rightarrow>
                           Inr (JObj (AList.update ''total_filings'' (JNum (int n)) kvs1)))))
                 else Inr (JObj kvs1))
      | _ \<Rightarrow> Inl (ValueError ''Invalid congress data structure''))"

definition try_block :: "file_content \<Rightarrow> exc + json" where
  "try_block f =
     (case f of
        NotUtf8 \<Rightarrow> Inl UnicodeDecodeError
      | NotJson \<Rightarrow> Inl JSONDecodeError
      | Json data \<Rightarrow> validate_congress data
      | Missing \<Rightarrow> Inl OSError)"

text \<open>
  The whole function: the empty registry for an absent file; otherwise the \<open>try\<close> block
  under its two handlers, \<open>except json.JSONDecodeError\<close> and then \<open>except Exception\<close>.
\<close>

definition load_congress_data :: "file_content \<Rightarrow> exc + json" where
  "load_congress_data f =
     (if f = Missing then
        Inr (JObj [(''last_updated'', JNull), (''total_members'', JNum 0),
                   (''total_filings'', JNum 0), (''members'', JObj [])])
      else
        (case try_block f of
           Inr data \<Rightarrow> Inr data
         | Inl JSONDecodeError \<Rightarrow> Inl (ValueError ''Invalid JSON format in congress data file'')
         | Inl e \<Rightarrow> Inl (RuntimeError ''Failed to load congress data'')))"

section \<open>Notions of the specification\<close>

text \<open>
  The amount buckets as the specification words them: ascending upper bounds, the bucket of
  a value being the smallest bound that is at least the value, rendered as the inclusive
  range from one above the previous bound (1,000 before the first) up to the bound.
\<close>

definition bucket_bounds :: "int list" where
  "bucket_bounds =
     [15000, 50000, 100000, 250000, 500000, 1000000, 5000000, 25000000, 50000000]"

definition range_label :: "int \<Rightarrow> int \<Rightarrow> string" where
  "range_label lo hi = ''$'' @ format_commas (nat lo) @ '' - $'' @ format_commas (nat hi)"

definition spec_categorize :: "int \<Rightarrow> string" where
  "spec_categorize v =
     (if v < 1000 then ''$'' @ format_commas (nat v)
      else
        let bs = filter (\<lambda>b. v \<le> b) bucket_bounds
        in if bs = [] then ''Over $'' @ format_commas (nat (Max (set bucket_bounds)))
           else
             let b = Min (set bs);
                 a = Max (set (1000 # filter (\<lambda>a. a < b) bucket_bounds))
             in range_label (a + 1) b)"

text \<open>What a pattern item may consume.\<close>

fun piece_ok :: "item \<Rightarrow> string \<Rightarrow> bool" where
  "piece_ok (One p) w = (length w = 1 \<and> list_all p w)"
| "piece_ok (Star p) w = list_all p w"
| "piece_ok (Plus p) w = (w \<noteq> [] \<and> list_all p w)"
| "piece_ok Eol w = (w = [])"

text \<open>A line holds a parenthesised ticker token: \<open>(\<close>, one or more of \<open>A-Z 0-9 .\<close>, \<open>)\<close>.\<close>

definition has_ticker_token :: "string \<Rightarrow> bool" where
  "has_ticker_token l =
     (\<exists>pre t post. l = pre @ ''('' @ t @ '')'' @ post \<and> t \<noteq> [] \<and> (\<forall>c\<in>set t. ticker_char c))"

text \<open>
  An error message is persisted when a ledger record or a registry filing holds it.
\<close>

definition error_recorded :: "string \<Rightarrow> store \<Rightarrow> bool" where
  "error_recorded msg st =
     (list_ex (\<lambda>(k, v). case v of
                          ErrorRecord t m b \<Rightarrow> m = msg
                        | Result r \<Rightarrow> result_error r = Some msg)
        (processed_filings (read_trading_data st)) \<or>
      list_ex (\<lambda>(k, m). list_ex (\<lambda>x. error x = Some msg) (filings m))
        (members (read_congress_data st)))"

text \<open>All filings of a registry, and the invariant that no two share a source link.\<close>

definition all_filings :: "(string \<times> member_data) list \<Rightarrow> filing list" where
  "all_filings ms = concat (map (\<lambda>(k, m). filings m) ms)"

definition registry_filings :: "store \<Rightarrow> filing list" where
  "registry_filings st = all_filings (members (read_congress_data st))"

definition links_unique :: "store \<Rightarrow> bool" where
  "links_unique st = distinct (map pdf_link (registry_filings st))"

text \<open>A store with one member, one pending filing and its entry in the pending queue.\<close>

definition sample_link :: string where
  "sample_link = ''https://disclosures-clerk.house.gov/public_disc/ptr-pdfs/2024/20030461.pdf''"

definition sample_filing :: filing where
  "sample_filing =
     \<lparr>pdf_id = ''20030461'', year = ''2024'', filing_type = ''P'', pdf_link = sample_link,
      processing_status = Some ''pending'', processed_at = None,
      has_stock_transactions = None, failed_at = None, error = None\<rparr>"

definition sample_store :: store where
  "sample_store =
     \<lparr>congress_file = Some
        \<lparr>last_updated = Some ''2024-04-30T10:00:00'', total_members = 1, total_filings = 1,
         members = [(''jane_doe_ca12'',
                     \<lparr>name = ''Jane Doe'', office = ''CA12'', filings = [sample_filing]\<rparr>)]\<rparr>,
      trading_file = Some
        \<lparr>trading_last_updated = ''2024-04-30T10:00:00'',
         pending_processing =
           [\<lparr>member_name = ''Jane Doe'', info_pdf_id = ''20030461'', pdf_url = sample_link,
             info_filing_type = ''P'', info_year = ''2024'',
             discovered_at = ''2024-04-30T10:00:00''\<rparr>],
         summary = \<lparr>total_pdfs = 1, processed_pdfs = 0, pending_pdfs = 1\<rparr>,
         processed_filings = []\<rparr>,
      stdout = []\<rparr>"

text \<open>
  The same store with a second filing under the same link, without status: a registry that
  breaks the invariant of unique source links.
\<close>

definition duplicate_filing :: filing where
  "duplicate_filing =
     \<lparr>pdf_id = ''20030461'', year = ''2024'', filing_type = ''P'', pdf_link = sample_link,
      processing_status = None, processed_at = None,
      has_stock_transactions = None, failed_at = None, error = None\<rparr>"

definition duplicate_store :: store where
  "duplicate_store =
     sample_store\<lparr>congress_file := Some
        \<lparr>last_updated = Some ''2024-04-30T10:00:00'', total_members = 2, total_filings = 2,
         members = [(''jane_doe_ca12'',
                     \<lparr>name = ''Jane Doe'', office = ''CA12'', filings = [sample_filing]\<rparr>),
                    (''jane_doe_ca'',
                     \<lparr>name = ''Jane Doe'', office = ''CA'', filings = [duplicate_filing]\<rparr>)]\<rparr>\<rparr>"

text \<open>
  A line carries a recognised owner prefix: one of the three codes, then white space, then
  at least one more character of the line (the form \<^verbatim>\<open>^(SP|DC|JT)\s+(.+)\<close>).
\<close>

definition has_owner_prefix :: "string \<Rightarrow> bool" where
  "has_owner_prefix line =
     (\<exists>code w c rest. code \<in> {''SP'', ''DC'', ''JT''} \<and> line = code @ w @ c # rest \<and>
        w \<noteq> [] \<and> list_all is_space w \<and> is_dot c)"

section \<open>Substrings\<close>

lemma contains_iff_sublist: "contains s sub \<longleftrightarrow> sublist sub s"
  unfolding contains_def
  by (induction s) (auto simp: sublist_Cons_right)

lemma sublist_lower:
  assumes "sublist p m"
  shows "sublist (lower p) (lower m)"
proof -
  from assms obtain ps ss where "m = ps @ p @ ss"
    by (auto simp: sublist_def)
  then have "lower m = lower ps @ lower p @ lower ss"
    by (simp add: lower_def)
  then show ?thesis
    unfolding sublist_def by blast
qed

section \<open>Permanence classification\<close>

lemma lower_file_not_found: "lower ''file not found'' = ''file not found''"
  by code_simp

text \<open>
  Claim C9. A message is classified permanent exactly when its lower-cased text contains one
  of the fixed keywords; hence every message containing \<open>file not found\<close> is permanent, and
  \<open>timeout\<close>, which contains no keyword, is transient.
\<close>

theorem is_permanent_error_keywords:
  "(is_permanent_error m \<longleftrightarrow> (\<exists>p\<in>set permanent_patterns. sublist p (lower m))) \<and>
   (sublist ''file not found'' m \<longrightarrow> is_permanent_error m) \<and>
   \<not> is_permanent_error ''timeout''"
proof (intro conjI impI)
  show iff: "is_permanent_error m \<longleftrightarrow> (\<exists>p\<in>set permanent_patterns. sublist p (lower m))"
    by (simp add: is_permanent_error_def list_ex_iff contains_iff_sublist)
  show "is_permanent_error m" if "sublist ''file not found'' m"
  proof -
    from that have "sublist ''file not found'' (lower m)"
      using sublist_lower lower_file_not_found by metis
    moreover have "''file not found'' \<in> set permanent_patterns"
      by (simp add: permanent_patterns_def)
    ultimately show ?thesis using iff by blast
  qed
  show "\<not> is_permanent_error ''timeout''"
    by code_simp
qed

theorem is_permanent_error_keywords_witness:
  "sublist ''file not found'' ''Error: file not found on disk'' \<and>
   is_permanent_error ''Error: file not found on disk''"
proof -
  have h: "sublist ''file not found'' ''Error: file not found on disk''"
    unfolding contains_iff_sublist [symmetric] by code_simp
  with is_permanent_error_keywords [of "''Error: file not found on disk''"] show ?thesis
    by blast
qed

section \<open>Transaction kind\<close>

text \<open>
  Claim C8, as stated, fails: a candidate line with both markers is a purchase although a
  sale marker is present.
\<close>

theorem transaction_type_sale_counterexample:
  "is_transaction_line ''AT&T S Class P 01/02/2024 01/05/2024 $1,001'' \<and>
   contains ''AT&T S Class P 01/02/2024 01/05/2024 $1,001'' '' S '' \<and>
   get_transaction_type ''AT&T S Class P 01/02/2024 01/05/2024 $1,001'' \<noteq> ''Sale''"
  by code_simp

text \<open>
  Claim C8, amended. For every candidate line the kind is \<open>Purchase\<close> when a space-delimited
  purchase marker is present, \<open>Sale\<close> when a space-delimited sale marker is present and no
  purchase marker is, and \<open>Unknown\<close> exactly when neither marker is present.
\<close>

theorem transaction_type_by_marker:
  "is_transaction_line line \<Longrightarrow>
   (contains line '' P '' \<longrightarrow> get_transaction_type line = ''Purchase'') \<and>
   (contains line '' S '' \<and> \<not> contains line '' P '' \<longrightarrow> get_transaction_type line = ''Sale'') \<and>
   (get_transaction_type line = ''Unknown'' \<longleftrightarrow>
      \<not> contains line '' P '' \<and> \<not> contains line '' S '')"
  by (simp add: get_transaction_type_def)

theorem transaction_type_by_marker_witness:
  "is_transaction_line ''Apple Inc (AAPL) [ST] S 01/02/2024 01/05/2024 $1,001'' \<and>
   contains ''Apple Inc (AAPL) [ST] S 01/02/2024 01/05/2024 $1,001'' '' S '' \<and>
   \<not> contains ''Apple Inc (AAPL) [ST] S 01/02/2024 01/05/2024 $1,001'' '' P '' \<and>
   get_transaction_type ''Apple Inc (AAPL) [ST] S 01/02/2024 01/05/2024 $1,001'' = ''Sale''"
proof -
  have h: "is_transaction_line ''Apple Inc (AAPL) [ST] S 01/02/2024 01/05/2024 $1,001''"
    by code_simp
  have s: "contains ''Apple Inc (AAPL) [ST] S 01/02/2024 01/05/2024 $1,001'' '' S ''"
    by code_simp
  have p: "\<not> contains ''Apple Inc (AAPL) [ST] S 01/02/2024 01/05/2024 $1,001'' '' P ''"
    by code_simp
  from transaction_type_by_marker [OF h] s p h show ?thesis by blast
qed

section \<open>Keys of the ledger's processed records\<close>

lemma success_path_key:
  "map_of (processed_filings (read_trading_data (mark_filing_processed now url (Some r) st)))
     (filing_no_of url) = Some (Result r)"
  by (simp add: mark_filing_processed_def Let_def save_trading_data_def save_congress_data_def
      read_trading_data_def update_conv split: prod.splits)

lemma error_path_key:
  "map_of (processed_filings (read_trading_data (mark_filing_error now url msg True st))) url
     = Some (ErrorRecord now msg True)"
  by (simp add: mark_filing_error_def Let_def save_trading_data_def save_congress_data_def
      read_trading_data_def update_conv split: prod.splits)

text \<open>
  Claim C5 says that both paths key a processed record by the document identifier. The
  success path does (\<open>success_path_key\<close>); the permanent-error path keys the record by
  the whole link. At the link below the only key after a permanent error is the link
  itself, whereas the document identifier is \<open>20030461\<close>.
\<close>

theorem permanent_error_keyed_by_link:
  "map fst (processed_filings (read_trading_data
      (mark_filing_error ''2024-05-01T10:00:00''
         ''https://disclosures-clerk.house.gov/public_disc/ptr-pdfs/2024/20030461.pdf''
         ''invalid pdf'' True
         \<lparr>congress_file = None, trading_file = None, stdout = []\<rparr>)))
     = [''https://disclosures-clerk.house.gov/public_disc/ptr-pdfs/2024/20030461.pdf''] \<and>
   filing_no_of ''https://disclosures-clerk.house.gov/public_disc/ptr-pdfs/2024/20030461.pdf''
     = ''20030461''"
  by code_simp

section \<open>Transient errors\<close>

text \<open>
  Claim C3, as stated, fails: after a transient error the queue is as before, but the
  message is in no ledger record and in no registry filing.
\<close>

theorem transient_error_not_recorded_counterexample:
  "\<not> (pending_processing (read_trading_data
         (mark_filing_error ''2024-05-01T10:00:00'' ''https://x.gov/ptr-pdfs/2024/20030461.pdf''
            ''Failed to download PDF'' False
            \<lparr>congress_file = None,
             trading_file = Some
               \<lparr>trading_last_updated = ''2024-04-30T10:00:00'',
                pending_processing =
                  [\<lparr>member_name = ''Jane Doe'', info_pdf_id = ''20030461'',
                    pdf_url = ''https://x.gov/ptr-pdfs/2024/20030461.pdf'',
                    info_filing_type = ''P'', info_year = ''2024'',
                    discovered_at = ''2024-04-30T10:00:00''\<rparr>],
                summary = \<lparr>total_pdfs = 0, processed_pdfs = 0, pending_pdfs = 1\<rparr>,
                processed_filings = []\<rparr>,
             stdout = []\<rparr>))
       = [\<lparr>member_name = ''Jane Doe'', info_pdf_id = ''20030461'',
           pdf_url = ''https://x.gov/ptr-pdfs/2024/20030461.pdf'',
           info_filing_type = ''P'', info_year = ''2024'',
           discovered_at = ''2024-04-30T10:00:00''\<rparr>] \<and>
       error_recorded ''Failed to download PDF''
         (mark_filing_error ''2024-05-01T10:00:00'' ''https://x.gov/ptr-pdfs/2024/20030461.pdf''
            ''Failed to download PDF'' False
            \<lparr>congress_file = None,
             trading_file = Some
               \<lparr>trading_last_updated = ''2024-04-30T10:00:00'',
                pending_processing =
                  [\<lparr>member_name = ''Jane Doe'', info_pdf_id = ''20030461'',
                    pdf_url = ''https://x.gov/ptr-pdfs/2024/20030461.pdf'',
                    info_filing_type = ''P'', info_year = ''2024'',
                    discovered_at = ''2024-04-30T10:00:00''\<rparr>],
                summary = \<lparr>total_pdfs = 0, processed_pdfs = 0, pending_pdfs = 1\<rparr>,
                processed_filings = []\<rparr>,
             stdout = []\<rparr>))"
  by (simp add: mark_filing_error_def Let_def save_trading_data_def read_trading_data_def
      read_congress_data_def error_recorded_def)

text \<open>
  Claim C3, amended. For every store, link and message, a transient error leaves the pending
  queue and the processed records exactly as they were and does not touch the registry
  file; the message is recorded nowhere that it was not before, and is printed in one line
  on standard output; the ledger file is written again, holding the ledger as loaded with
  its two summary counts recomputed and the time of the call as \<open>last_updated\<close>.
\<close>

theorem transient_error_only_printed:
  "pending_processing (read_trading_data (mark_filing_error now url msg False st))
     = pending_processing (read_trading_data st) \<and>
   processed_filings (read_trading_data (mark_filing_error now url msg False st))
     = processed_filings (read_trading_data st) \<and>
   congress_file (mark_filing_error now url msg False st) = congress_file st \<and>
   error_recorded msg (mark_filing_error now url msg False st) = error_recorded msg st \<and>
   stdout (mark_filing_error now url msg False st)
     = stdout st @ [''Temporary error for '' @ url @ '': '' @ msg @ '' (will retry)''] \<and>
   trading_file (mark_filing_error now url msg False st)
     = Some ((read_trading_data st)
         \<lparr>summary := (summary (read_trading_data st))
            \<lparr>processed_pdfs := length (processed_filings (read_trading_data st)),
             pending_pdfs := length (pending_processing (read_trading_data st))\<rparr>,
          trading_last_updated := now\<rparr>)"
  by (simp add: mark_filing_error_def Let_def save_trading_data_def read_trading_data_def
      read_congress_data_def error_recorded_def)

section \<open>Failures of the atomic write\<close>

lemma atomic_write_failure_propagates:
  "fault \<noteq> NoFault \<Longrightarrow> fst (atomic_write fs file_path tmp text fault e) = Some e"
  by (cases fault) (simp_all add: atomic_write_def)

lemma atomic_write_failure_keeps_target:
  "fault \<noteq> NoFault \<Longrightarrow> tmp \<noteq> file_path \<Longrightarrow>
   snd (atomic_write fs file_path tmp text fault e) file_path = fs file_path"
  by (cases fault) (simp_all add: atomic_write_def cleanup_def)

lemma atomic_write_cleanup_after_dump:
  "fault = CloseFails \<or> fault = ReplaceFails \<Longrightarrow>
   snd (atomic_write fs file_path tmp text fault e) tmp = None"
  by (auto simp: atomic_write_def cleanup_def)

text \<open>
  Claim C2 says that after any failure before the replace the committed file is unchanged,
  the temporary file is removed and the error propagates. The first and the last hold at
  every failure point (the lemmas above). When \<open>json.dump\<close> itself fails, the temporary
  file stays: here the write of \<open>new content\<close> breaks after three characters, the error
  propagates, the committed file keeps \<open>old content\<close>, and the temporary file is left
  holding \<open>new\<close>.
\<close>

theorem atomic_write_dump_failure_leaves_temp:
  "fst (atomic_write [''data/trading_data.json'' \<mapsto> ''old content'']
          ''data/trading_data.json'' ''data/tmpk3x9q2'' ''new content'' (DumpFails 3) OSError)
     = Some OSError \<and>
   snd (atomic_write [''data/trading_data.json'' \<mapsto> ''old content'']
          ''data/trading_data.json'' ''data/tmpk3x9q2'' ''new content'' (DumpFails 3) OSError)
     ''data/trading_data.json'' = Some ''old content'' \<and>
   snd (atomic_write [''data/trading_data.json'' \<mapsto> ''old content'']
          ''data/trading_data.json'' ''data/tmpk3x9q2'' ''new content'' (DumpFails 3) OSError)
     ''data/tmpk3x9q2'' = Some ''new''"
  by (simp add: atomic_write_def cleanup_def)

section \<open>Errors of loading a malformed registry\<close>

lemma py_len_error: "py_len v = Inl e \<Longrightarrow> e = TypeError"
  by (cases v) simp_all

lemma py_get_error: "py_get v key dflt = Inl e \<Longrightarrow> e = AttributeError"
  by (cases v) simp_all

lemma py_values_error: "py_values v = Inl e \<Longrightarrow> e = AttributeError"
  by (cases v) simp_all

lemma sum_filings_error: "sum_filings vs = Inl e \<Longrightarrow> e = TypeError \<or> e = AttributeError"
  by (induction vs) (auto split: sum.splits dest: py_len_error py_get_error)

lemma validate_congress_error:
  "validate_congress data = Inl e \<Longrightarrow>
   e = ValueError ''Invalid congress data structure'' \<or> e = TypeError \<or> e = AttributeError"
  unfolding validate_congress_def
  by (auto split: json.splits if_splits sum.splits
      dest: py_len_error py_get_error py_values_error sum_filings_error)

lemma load_structure_error_is_runtime_error:
  assumes "validate_congress data = Inl e"
  shows "load_congress_data (Json data) = Inl (RuntimeError ''Failed to load congress data'')"
  using validate_congress_error [OF assms] assms
  by (auto simp: load_congress_data_def try_block_def)

lemma load_without_members:
  assumes "\<And>kvs. data = JObj kvs \<Longrightarrow> map_of kvs ''members'' = None"
  shows "load_congress_data (Json data) = Inl (RuntimeError ''Failed to load congress data'')"
proof -
  have "validate_congress data = Inl (ValueError ''Invalid congress data structure'')"
    using assms by (cases data) (simp_all add: validate_congress_def)
  then show ?thesis
    by (rule load_structure_error_is_runtime_error)
qed

lemma load_not_utf8:
  "load_congress_data NotUtf8 = Inl (RuntimeError ''Failed to load congress data'')"
  by (simp add: load_congress_data_def try_block_def)

text \<open>
  Claim C4 says that every malformed registry file raises the one validation error. The
  \<open>ValueError\<close> raised for a missing \<open>members\<close> structure is caught by the function's own
  \<open>except Exception\<close> and leaves as a \<open>RuntimeError\<close> (\<open>load_without_members\<close>), while
  text that is not JSON leaves as a \<open>ValueError\<close>: an object without \<open>members\<close>, a JSON
  array, and a file that is not JSON.
\<close>

theorem load_congress_data_error_kinds:
  "load_congress_data (Json (JObj [(''last_updated'', JStr ''2024-05-01T10:00:00'')]))
     = Inl (RuntimeError ''Failed to load congress data'') \<and>
   load_congress_data (Json (JArr []))
     = Inl (RuntimeError ''Failed to load congress data'') \<and>
   load_congress_data NotJson
     = Inl (ValueError ''Invalid JSON format in congress data file'')"
  by (simp add: load_congress_data_def try_block_def validate_congress_def)

section \<open>Soundness of the matcher\<close>

lemma rmatch_sound:
  "rmatch pat acc s = Some (ps, rest) \<Longrightarrow>
   length ps = length pat \<and>
   concat ps @ rest = (if (\<exists>p r. pat = Star p # r) then acc else []) @ s"
  by (induction pat acc s arbitrary: ps rest rule: rmatch.induct)
     (auto split: if_splits option.splits)

lemma rmatch_pieces:
  "rmatch pat acc s = Some (ps, rest) \<Longrightarrow>
   (\<forall>p r. pat = Star p # r \<longrightarrow>
      (\<exists>q qs. ps = (acc @ q) # qs \<and> list_all p q \<and> list_all2 piece_ok r qs)) \<and>
   ((\<nexists>p r. pat = Star p # r) \<longrightarrow> list_all2 piece_ok pat ps) \<and>
   (acc = [] \<longrightarrow> list_all2 piece_ok pat ps)"
  by (induction pat acc s arbitrary: ps rest rule: rmatch.induct)
     (auto split: if_splits option.splits)



lemma re_search_sound:
  "re_search pat s = Some (pre, ps, post) \<Longrightarrow>
   s = pre @ concat ps @ post \<and> length ps = length pat \<and> list_all2 piece_ok pat ps"
proof (induction s arbitrary: pre)
  case Nil
  then show ?case
    using rmatch_sound [of pat "[]" "[]" ps post] rmatch_pieces [of pat "[]" "[]" ps post]
    by (auto simp: re_match_def split: option.splits)
next
  case (Cons c cs)
  show ?case
  proof (cases "re_match pat (c # cs)")
    case None
    with Cons.prems obtain pre' where "re_search pat cs = Some (pre', ps, post)" "pre = c # pre'"
      by auto
    with Cons.IH [of pre'] show ?thesis by simp
  next
    case (Some m)
    with Cons.prems have "rmatch pat [] (c # cs) = Some (ps, post)" "pre = []"
      by (auto simp: re_match_def)
    with rmatch_sound [of pat "[]" "c # cs" ps post] rmatch_pieces [of pat "[]" "c # cs" ps post]
    show ?thesis by simp
  qed
qed

lemma amount_token:
  assumes "re_search amount_pat line = Some (pre, ps, post)"
  shows "line = pre @ concat ps @ post \<and>
         (\<exists>ds. concat ps = CHR ''$'' # ds \<and> ds \<noteq> [] \<and>
               list_all (\<lambda>c. is_digit c \<or> c = CHR '','') ds)"
  using re_search_sound [OF assms]
  by (auto simp: amount_pat_def list_all2_Cons1 length_Suc_conv)

section \<open>Amount buckets\<close>

lemma range_labels:
  "range_label 1001 15000 = ''$1,001 - $15,000''"
  "range_label 15001 50000 = ''$15,001 - $50,000''"
  "range_label 50001 100000 = ''$50,001 - $100,000''"
  "range_label 100001 250000 = ''$100,001 - $250,000''"
  "range_label 250001 500000 = ''$250,001 - $500,000''"
  "range_label 500001 1000000 = ''$500,001 - $1,000,000''"
  "range_label 1000001 5000000 = ''$1,000,001 - $5,000,000''"
  "range_label 5000001 25000000 = ''$5,000,001 - $25,000,000''"
  "range_label 25000001 50000000 = ''$25,000,001 - $50,000,000''"
  by (simp_all add: range_label_def format_commas.simps dec.simps digit_char_def)

lemma over_label: "format_commas (nat (Max (set bucket_bounds))) = ''50,000,000''"
  by (simp add: bucket_bounds_def format_commas.simps dec.simps digit_char_def)

lemma spec_bucket:
  assumes "1000 \<le> v"
    and "filter (\<lambda>b. v \<le> b) bucket_bounds = bs" and "bs \<noteq> []"
    and "Min (set bs) = b"
    and "Max (set (1000 # filter (\<lambda>a. a < b) bucket_bounds)) = a"
  shows "spec_categorize v = range_label (a + 1) b"
proof -
  from assms(1) have "\<not> v < 1000" by simp
  then show ?thesis
    unfolding spec_categorize_def Let_def assms(2) assms(4) assms(5)
    using assms(3) by simp
qed

lemma spec_over:
  assumes "50000000 < v"
  shows "spec_categorize v = ''Over $50,000,000''"
proof -
  have f: "filter (\<lambda>b. v \<le> b) bucket_bounds = []"
    using assms by (simp add: bucket_bounds_def)
  from assms have "\<not> v < 1000" by simp
  then show ?thesis
    unfolding spec_categorize_def Let_def f
    by (simp add: over_label)
qed

lemma spec_15000:
  assumes "1000 \<le> v" and "v \<le> 15000"
  shows "spec_categorize v = range_label 1001 15000"
proof -
  have f: "filter (\<lambda>b. v \<le> b) bucket_bounds = [15000, 50000, 100000, 250000, 500000, 1000000, 5000000, 25000000, 50000000]"
    using assms by (simp add: bucket_bounds_def)
  have n: "[15000, 50000, 100000, 250000, 500000, 1000000, 5000000, 25000000, 50000000] \<noteq> ([] :: int list)"
    by simp
  have m: "Min (set [15000, 50000, 100000, 250000, 500000, 1000000, 5000000, 25000000, 50000000]) = (15000::int)"
    by simp
  have a: "Max (set (1000 # filter (\<lambda>a. a < 15000) bucket_bounds)) = (1000::int)"
    by (simp add: bucket_bounds_def)
  from assms have "1000 \<le> v" by simp
  from spec_bucket [OF this f n m a] show ?thesis by simp
qed

lemma spec_50000:
  assumes "15000 < v" and "v \<le> 50000"
  shows "spec_categorize v = range_label 15001 50000"
proof -
  have f: "filter (\<lambda>b. v \<le> b) bucket_bounds = [50000, 100000, 250000, 500000, 1000000, 5000000, 25000000, 50000000]"
    using assms by (simp add: bucket_bounds_def)
  have n: "[50000, 100000, 250000, 500000, 1000000, 5000000, 25000000, 50000000] \<noteq> ([] :: int list)"
    by simp
  have m: "Min (set [50000, 100000, 250000, 500000, 1000000, 5000000, 25000000, 50000000]) = (50000::int)"
    by simp
  have a: "Max (set (1000 # filter (\<lambda>a. a < 50000) bucket_bounds)) = (15000::int)"
    by (simp add: bucket_bounds_def)
  from assms have "1000 \<le> v" by simp
  from spec_bucket [OF this f n m a] show ?thesis by simp
qed

lemma spec_100000:
  assumes "50000 < v" and "v \<le> 100000"
  shows "spec_categorize v = range_label 50001 100000"
proof -
  have f: "filter (\<lambda>b. v \<le> b) bucket_bounds = [100000, 250000, 500000, 1000000, 5000000, 25000000, 50000000]"
    using assms by (simp add: bucket_bounds_def)
  have n: "[100000, 250000, 500000, 1000000, 5000000, 25000000, 50000000] \<noteq> ([] :: int list)"
    by simp
  have m: "Min (set [100000, 250000, 500000, 1000000, 5000000, 25000000, 50000000]) = (100000::int)"
    by simp
  have a: "Max (set (1000 # filter (\<lambda>a. a < 100000) bucket_bounds)) = (50000::int)"
    by (simp add: bucket_bounds_def)
  from assms have "1000 \<le> v" by simp
  from spec_bucket [OF this f n m a] show ?thesis by simp
qed

lemma spec_250000:
  assumes "100000 < v" and "v \<le> 250000"
  shows "spec_categorize v = range_label 100001 250000"
proof -
  have f: "filter (\<lambda>b. v \<le> b) bucket_bounds = [250000, 500000, 1000000, 5000000, 25000000, 50000000]"
    using assms by (simp add: bucket_bounds_def)
  have n: "[250000, 500000, 1000000, 5000000, 25000000, 50000000] \<noteq> ([] :: int list)"
    by simp
  have m: "Min (set [250000, 500000, 1000000, 5000000, 25000000, 50000000]) = (250000::int)"
    by simp
  have a: "Max (set (1000 # filter (\<lambda>a. a < 250000) bucket_bounds)) = (100000::int)"
    by (simp add: bucket_bounds_def)
  from assms have "1000 \<le> v" by simp
  from spec_bucket [OF this f n m a] show ?thesis by simp
qed

lemma spec_500000:
  assumes "250000 < v" and "v \<le> 500000"
  shows "spec_categorize v = range_label 250001 500000"
proof -
  have f: "filter (\<lambda>b. v \<le> b) bucket_bounds = [500000, 1000000, 5000000, 25000000, 50000000]"
    using assms by (simp add: bucket_bounds_def)
  have n: "[500000, 1000000, 5000000, 25000000, 50000000] \<noteq> ([] :: int list)"
    by simp
  have m: "Min (set [500000, 1000000, 5000000, 25000000, 50000000]) = (500000::int)"
    by simp
  have a: "Max (set (1000 # filter (\<lambda>a. a < 500000) bucket_bounds)) = (250000::int)"
    by (simp add: bucket_bounds_def)
  from assms have "1000 \<le> v" by simp
  from spec_bucket [OF this f n m a] show ?thesis by simp
qed

lemma spec_1000000:
  assumes "500000 < v" and "v \<le> 1000000"
  shows "spec_categorize v = range_label 500001 1000000"
proof -
  have f: "filter (\<lambda>b. v \<le> b) bucket_bounds = [1000000, 5000000, 25000000, 50000000]"
    using assms by (simp add: bucket_bounds_def)
  have n: "[1000000, 5000000, 25000000, 50000000] \<noteq> ([] :: int list)"
    by simp
  have m: "Min (set [1000000, 5000000, 25000000, 50000000]) = (1000000::int)"
    by simp
  have a: "Max (set (1000 # filter (\<lambda>a. a < 1000000) bucket_bounds)) = (500000::int)"
    by (simp add: bucket_bounds_def)
  from assms have "1000 \<le> v" by simp
  from spec_bucket [OF this f n m a] show ?thesis by simp
qed

lemma spec_5000000:
  assumes "1000000 < v" and "v \<le> 5000000"
  shows "spec_categorize v = range_label 1000001 5000000"
proof -
  have f: "filter (\<lambda>b. v \<le> b) bucket_bounds = [5000000, 25000000, 50000000]"
    using assms by (simp add: bucket_bounds_def)
  have n: "[5000000, 25000000, 50000000] \<noteq> ([] :: int list)"
    by simp
  have m: "Min (set [5000000, 25000000, 50000000]) = (5000000::int)"
    by simp
  have a: "Max (set (1000 # filter (\<lambda>a. a < 5000000) bucket_bounds)) = (1000000::int)"
    by (simp add: bucket_bounds_def)
  from assms have "1000 \<le> v" by simp
  from spec_bucket [OF this f n m a] show ?thesis by simp
qed

lemma spec_25000000:
  assumes "5000000 < v" and "v \<le> 25000000"
  shows "spec_categorize v = range_label 5000001 25000000"
proof -
  have f: "filter (\<lambda>b. v \<le> b) bucket_bounds = [25000000, 50000000]"
    using assms by (simp add: bucket_bounds_def)
  have n: "[25000000, 50000000] \<noteq> ([] :: int list)"
    by simp
  have m: "Min (set [25000000, 50000000]) = (25000000::int)"
    by simp
  have a: "Max (set (1000 # filter (\<lambda>a. a < 25000000) bucket_bounds)) = (5000000::int)"
    by (simp add: bucket_bounds_def)
  from assms have "1000 \<le> v" by simp
  from spec_bucket [OF this f n m a] show ?thesis by simp
qed

lemma spec_50000000:
  assumes "25000000 < v" and "v \<le> 50000000"
  shows "spec_categorize v = range_label 25000001 50000000"
proof -
  have f: "filter (\<lambda>b. v \<le> b) bucket_bounds = [50000000]"
    using assms by (simp add: bucket_bounds_def)
  have n: "[50000000] \<noteq> ([] :: int list)"
    by simp
  have m: "Min (set [50000000]) = (50000000::int)"
    by simp
  have a: "Max (set (1000 # filter (\<lambda>a. a < 50000000) bucket_bounds)) = (25000000::int)"
    by (simp add: bucket_bounds_def)
  from assms have "1000 \<le> v" by simp
  from spec_bucket [OF this f n m a] show ?thesis by simp
qed

lemma range_of_spec:
  assumes "1000 \<le> v"
  shows "range_of AMOUNT_RANGES v = spec_categorize v"
proof -
  consider "v \<le> 15000" | "15000 < v" "v \<le> 50000" | "50000 < v" "v \<le> 100000"
    | "100000 < v" "v \<le> 250000" | "250000 < v" "v \<le> 500000"
    | "500000 < v" "v \<le> 1000000" | "1000000 < v" "v \<le> 5000000"
    | "5000000 < v" "v \<le> 25000000" | "25000000 < v" "v \<le> 50000000"
    | "50000000 < v"
    by linarith
  then show ?thesis
  proof cases
    case 1
    then have "range_of AMOUNT_RANGES v = range_label 1001 15000"
      by (simp add: AMOUNT_RANGES_def range_labels)
    with 1 assms show ?thesis
      by (simp add: spec_15000)
  next
    case 2
    then have "range_of AMOUNT_RANGES v = range_label 15001 50000"
      by (simp add: AMOUNT_RANGES_def range_labels)
    with 2 assms show ?thesis
      by (simp add: spec_50000)
  next
    case 3
    then have "range_of AMOUNT_RANGES v = range_label 50001 100000"
      by (simp add: AMOUNT_RANGES_def range_labels)
    with 3 assms show ?thesis
      by (simp add: spec_100000)
  next
    case 4
    then have "range_of AMOUNT_RANGES v = range_label 100001 250000"
      by (simp add: AMOUNT_RANGES_def range_labels)
    with 4 assms show ?thesis
      by (simp add: spec_250000)
  next
    case 5
    then have "range_of AMOUNT_RANGES v = range_label 250001 500000"
      by (simp add: AMOUNT_RANGES_def range_labels)
    with 5 assms show ?thesis
      by (simp add: spec_500000)
  next
    case 6
    then have "range_of AMOUNT_RANGES v = range_label 500001 1000000"
      by (simp add: AMOUNT_RANGES_def range_labels)
    with 6 assms show ?thesis
      by (simp add: spec_1000000)
  next
    case 7
    then have "range_of AMOUNT_RANGES v = range_label 1000001 5000000"
      by (simp add: AMOUNT_RANGES_def range_labels)
    with 7 assms show ?thesis
      by (simp add: spec_5000000)
  next
    case 8
    then have "range_of AMOUNT_RANGES v = range_label 5000001 25000000"
      by (simp add: AMOUNT_RANGES_def range_labels)
    with 8 assms show ?thesis
      by (simp add: spec_25000000)
  next
    case 9
    then have "range_of AMOUNT_RANGES v = range_label 25000001 50000000"
      by (simp add: AMOUNT_RANGES_def range_labels)
    with 9 assms show ?thesis
      by (simp add: spec_50000000)
  next
    case 10
    then have "range_of AMOUNT_RANGES v = ''Over $50,000,000''"
      by (simp add: AMOUNT_RANGES_def)
    with 10 show ?thesis
      by (simp add: spec_over)
  qed
qed


text \<open>
  Claim C6. For a line with a currency-amount token, the first of them being the match
  \<open>concat ps\<close>: when the digits of the token do not parse, the result is the token as
  matched; otherwise, with \<open>v\<close> the value, the result is the specification's label of
  \<open>v\<close>: the exact amount below 1,000, else the range of the smallest bound that is at least
  \<open>v\<close>, else the label above the largest bound. The four values named by the
  specification give the four labels it names.
\<close>

theorem categorize_amount:
  "(re_search amount_pat line = Some (pre, ps, post) \<longrightarrow>
      extract_and_categorize_amount line =
        (case py_int (filter (\<lambda>c. c \<noteq> CHR '','') (filter (\<lambda>c. c \<noteq> CHR ''$'') (concat ps))) of
           None \<Rightarrow> concat ps
         | Some v \<Rightarrow> spec_categorize v)) \<and>
   extract_and_categorize_amount ''$999'' = ''$999'' \<and>
   extract_and_categorize_amount ''$15000'' = ''$1,001 - $15,000'' \<and>
   extract_and_categorize_amount ''$15001'' = ''$15,001 - $50,000'' \<and>
   extract_and_categorize_amount ''$100000001'' = ''Over $50,000,000''"
proof (intro conjI impI)
  assume m: "re_search amount_pat line = Some (pre, ps, post)"
  show "extract_and_categorize_amount line =
        (case py_int (filter (\<lambda>c. c \<noteq> CHR '','') (filter (\<lambda>c. c \<noteq> CHR ''$'') (concat ps))) of
           None \<Rightarrow> concat ps
         | Some v \<Rightarrow> spec_categorize v)"
  proof (cases "py_int (filter (\<lambda>c. c \<noteq> CHR '','') (filter (\<lambda>c. c \<noteq> CHR ''$'') (concat ps)))")
    case None
    with m show ?thesis
      by (simp add: extract_and_categorize_amount_def)
  next
    case (Some v)
    show ?thesis
    proof (cases "v < 1000")
      case True
      with m Some show ?thesis
        by (simp add: extract_and_categorize_amount_def spec_categorize_def)
    next
      case False
      then have "range_of AMOUNT_RANGES v = spec_categorize v"
        by (simp add: range_of_spec)
      with m Some False show ?thesis
        by (simp add: extract_and_categorize_amount_def)
    qed
  qed
next
  show "extract_and_categorize_amount ''$999'' = ''$999''"
    by (simp add: extract_and_categorize_amount_def amount_pat_def re_match_def is_digit_def
        py_int_def digit_val_def format_commas.simps dec.simps digit_char_def)
  show "extract_and_categorize_amount ''$15000'' = ''$1,001 - $15,000''"
    by code_simp
  show "extract_and_categorize_amount ''$15001'' = ''$15,001 - $50,000''"
    by code_simp
  show "extract_and_categorize_amount ''$100000001'' = ''Over $50,000,000''"
    by code_simp
qed

theorem categorize_amount_witness:
  "re_search amount_pat ''Sold for $1,250,000 in cash'' = Some (''Sold for '', [''$'', ''1,250,000''], '' in cash'') \<and>
   extract_and_categorize_amount ''Sold for $1,250,000 in cash'' = spec_categorize 1250000 \<and>
   spec_categorize 1250000 = ''$1,000,001 - $5,000,000''"
proof -
  have m: "re_search amount_pat ''Sold for $1,250,000 in cash''
             = Some (''Sold for '', [''$'', ''1,250,000''], '' in cash'')"
    by code_simp
  have v: "py_int (filter (\<lambda>c. c \<noteq> CHR '','') (filter (\<lambda>c. c \<noteq> CHR ''$'')
             (concat [''$'', ''1,250,000'']))) = Some 1250000"
    by code_simp
  have s: "spec_categorize 1250000 = ''$1,000,001 - $5,000,000''"
    using spec_5000000 [of 1250000] by (simp add: range_labels)
  from categorize_amount [of "''Sold for $1,250,000 in cash''" "''Sold for ''"
      "[''$'', ''1,250,000'']" "'' in cash''"] m v s
  show ?thesis by simp
qed

section \<open>Owner and notification date of emitted transactions\<close>

lemma re_findall_elem:
  "x \<in> set (re_findall pat s) \<Longrightarrow>
   \<exists>s' pre ps post. re_search pat s' = Some (pre, ps, post) \<and> x = concat ps"
proof (induction "length s" arbitrary: s rule: less_induct)
  case less
  show ?case
  proof (cases "re_search pat s")
    case None
    with less.prems show ?thesis
      by (simp add: re_findall.simps [of pat s])
  next
    case (Some m)
    obtain pre ps post where m: "m = (pre, ps, post)"
      by (cases m) auto
    from less.prems Some m
    consider "x = concat ps" | "length post < length s" "x \<in> set (re_findall pat post)"
      by (auto simp: re_findall.simps [of pat s] split: if_splits)
    then show ?thesis
    proof cases
      case 1
      with Some m show ?thesis by blast
    next
      case 2
      then show ?thesis by (rule less.hyps)
    qed
  qed
qed

lemma date_match_length:
  assumes "re_search date_pat s = Some (pre, ps, post)"
  shows "length (concat ps) = 10"
  using re_search_sound [OF assms]
  by (auto simp: date_pat_def list_all2_Cons1)

lemma extract_dates_length: "x \<in> set (extract_dates line) \<Longrightarrow> length x = 10"
  unfolding extract_dates_def
  using re_findall_elem date_match_length by blast

lemma rmatch_lit_prefix:
  "rmatch (lit code @ r) acc line = Some m \<Longrightarrow> prefix code line"
proof (induction code arbitrary: acc line m)
  case Nil
  then show ?case by simp
next
  case (Cons c code)
  then show ?case
    by (cases line) (auto simp: lit_def split: if_splits)
qed

lemma owner_match_prefix: "re_match (owner_pat code) line = Some m \<Longrightarrow> prefix code line"
  unfolding re_match_def owner_pat_def by (rule rmatch_lit_prefix)

lemma extract_owner_code_range: "fst (extract_owner_code line) \<in> {''SP'', ''DC'', ''JT'', []}"
  by (simp add: extract_owner_code_def split: option.splits prod.splits)

lemma extract_owner_code_no_prefix:
  assumes "\<not> prefix ''SP'' line" "\<not> prefix ''DC'' line" "\<not> prefix ''JT'' line"
  shows "extract_owner_code line = ([], line)"
proof -
  from assms have "re_match (owner_pat ''SP'') line = None"
    "re_match (owner_pat ''DC'') line = None" "re_match (owner_pat ''JT'') line = None"
    using owner_match_prefix by (metis option.exhaust)+
  then show ?thesis
    by (simp add: extract_owner_code_def)
qed

lemma owner_of_values:
  "owner_of ''SP'' = ''Spouse''" "owner_of ''DC'' = ''Dependent Child''"
  "owner_of ''JT'' = ''Joint''" "owner_of [] = ''Self''"
  by (simp_all add: owner_of_def OWNER_CODES_def)

lemma parse_transaction_line_Some:
  assumes "parse_transaction_line line context_lines = Some t"
  shows "owner t = owner_of (fst (extract_owner_code line))"
    and "2 \<le> length (extract_dates line)"
    and "notification_date t = extract_dates line ! 1"
    and "snd (extract_asset_info line context_lines) \<noteq> []"
    and "extract_and_categorize_amount line \<noteq> []"
  using assms
  by (auto simp: parse_transaction_line_def Let_def split: prod.splits if_splits)

lemma emitted_is_parsed:
  assumes "t \<in> set (extract_transactions_from_lines lines)"
  shows "\<exists>i<length lines. is_transaction_line (lines ! i) \<and>
           parse_transaction_line (lines ! i) (get_context_lines lines i 2) = Some t"
  using assms
  by (auto simp: extract_transactions_from_lines_def Let_def split: if_splits option.splits)

lemma owner_match_sound:
  assumes "re_match (owner_pat [a, b]) line = Some m"
  shows "\<exists>w c rest. line = [a, b] @ w @ c # rest \<and> w \<noteq> [] \<and> list_all is_space w \<and> is_dot c"
proof -
  obtain ps rest where m: "m = (ps, rest)" by (cases m)
  from assms m have r: "rmatch (owner_pat [a, b]) [] line = Some (ps, rest)"
    by (simp add: re_match_def)
  from rmatch_sound [OF r] rmatch_pieces [OF r]
  obtain w v where "line = [a, b] @ w @ v @ rest" "w \<noteq> []" "list_all is_space w"
    "v \<noteq> []" "list_all is_dot v"
    by (auto simp: owner_pat_def lit_def list_all2_Cons1 length_Suc_conv)
  then show ?thesis
    by (cases v) auto
qed

lemma rmatch_star_last: "rmatch [Star p] acc s \<noteq> None"
  by (induction s arbitrary: acc) (auto split: option.splits)

lemma star_backtrack:
  "list_all p t \<Longrightarrow> rmatch r [] s \<noteq> None \<Longrightarrow> rmatch (Star p # r) acc (t @ s) \<noteq> None"
proof (induction t arbitrary: acc)
  case Nil
  then show ?case
    by (cases s) (auto split: option.splits)
next
  case (Cons c t)
  from Cons.IH [of "acc @ [c]"] Cons.prems
  have "rmatch (Star p # r) (acc @ [c]) (t @ s) \<noteq> None"
    by simp
  with Cons.prems(1) show ?case
    by auto
qed

lemma owner_match_complete:
  assumes "w \<noteq> []" "list_all is_space w" "is_dot c"
  shows "re_match (owner_pat [a, b]) ([a, b] @ w @ c # rest) \<noteq> None"
proof -
  from assms obtain d w' where w: "w = d # w'" "is_space d" "list_all is_space w'"
    by (cases w) auto
  from assms(3) rmatch_star_last [of is_dot "[c]" rest]
  have "rmatch [Plus is_dot] [] (c # rest) \<noteq> None"
    by simp
  from star_backtrack [OF w(3) this, of "[d]"]
  have "rmatch [Star is_space, Plus is_dot] [d] (w' @ c # rest) \<noteq> None" .
  with w show ?thesis
    by (simp add: re_match_def owner_pat_def lit_def)
qed

lemma extract_owner_code_empty_iff:
  "fst (extract_owner_code line) = [] \<longleftrightarrow> \<not> has_owner_prefix line"
proof
  assume e: "fst (extract_owner_code line) = []"
  show "\<not> has_owner_prefix line"
  proof
    assume "has_owner_prefix line"
    then obtain code w c rest where h: "code \<in> {''SP'', ''DC'', ''JT''}"
      "line = code @ w @ c # rest" "w \<noteq> []" "list_all is_space w" "is_dot c"
      unfolding has_owner_prefix_def by blast
    from h(1) obtain a b where ab: "code = [a, b]"
      by auto
    from owner_match_complete [OF h(3,4,5), of a b rest] h(2) ab
    have "re_match (owner_pat code) line \<noteq> None"
      by simp
    with h(1) e show False
      by (auto simp: extract_owner_code_def split: option.splits)
  qed
next
  assume n: "\<not> has_owner_prefix line"
  have "re_match (owner_pat code) line = None" if "code \<in> {''SP'', ''DC'', ''JT''}" for code
  proof (rule ccontr)
    assume "re_match (owner_pat code) line \<noteq> None"
    then obtain m where m: "re_match (owner_pat code) line = Some m"
      by auto
    from that obtain a b where ab: "code = [a, b]"
      by auto
    from owner_match_sound [of a b line m] m ab that n show False
      unfolding has_owner_prefix_def by blast
  qed
  then show "fst (extract_owner_code line) = []"
    by (simp add: extract_owner_code_def)
qed

lemma owner_self_iff:
  "owner_of (fst (extract_owner_code line)) = ''Self'' \<longleftrightarrow> \<not> has_owner_prefix line"
  using extract_owner_code_range [of line] extract_owner_code_empty_iff [of line]
  by (auto simp: owner_of_values)

text \<open>
  A line that begins with the letters of a code but not with the code and white space has
  no owner prefix, and its owner is \<open>Self\<close>.
\<close>

lemma letters_of_a_code_are_no_prefix:
  "\<not> has_owner_prefix ''SPDR Gold Shares (GLD) [ST] P 01/02/2024 01/05/2024 $1,001'' \<and>
   fst (extract_owner_code ''SPDR Gold Shares (GLD) [ST] P 01/02/2024 01/05/2024 $1,001'') = []"
proof -
  have "fst (extract_owner_code ''SPDR Gold Shares (GLD) [ST] P 01/02/2024 01/05/2024 $1,001'') = []"
    by code_simp
  then show ?thesis
    by (simp add: extract_owner_code_empty_iff)
qed

text \<open>
  Claim C10. Every transaction emitted by the extraction engine is the record parsed from
  one of the lines with its context window; its owner is one of \<open>Self\<close>, \<open>Spouse\<close>,
  \<open>Dependent Child\<close>, \<open>Joint\<close>, and is \<open>Self\<close> exactly when the line carries no recognised
  owner prefix (one of the three codes followed by white space and more text); the line
  has at least two date tokens (so the empty fallback of the notification date is never
  taken) and the notification date is the second of them, which is not empty.
\<close>

theorem emitted_owner_and_notification_date:
  assumes "t \<in> set (extract_transactions_from_lines lines)"
  shows "\<exists>i<length lines.
           parse_transaction_line (lines ! i) (get_context_lines lines i 2) = Some t \<and>
           owner t \<in> {''Self'', ''Spouse'', ''Dependent Child'', ''Joint''} \<and>
           (owner t = ''Self'' \<longleftrightarrow> \<not> has_owner_prefix (lines ! i)) \<and>
           2 \<le> length (extract_dates (lines ! i)) \<and>
           notification_date t = extract_dates (lines ! i) ! 1 \<and>
           notification_date t \<noteq> []"
proof -
  from emitted_is_parsed [OF assms] obtain i where i: "i < length lines"
    and p: "parse_transaction_line (lines ! i) (get_context_lines lines i 2) = Some t"
    by blast
  note f = parse_transaction_line_Some [OF p]
  have o: "owner t \<in> {''Self'', ''Spouse'', ''Dependent Child'', ''Joint''}"
    using extract_owner_code_range [of "lines ! i"] f(1)
    by (auto simp: owner_of_values)
  have s: "owner t = ''Self'' \<longleftrightarrow> \<not> has_owner_prefix (lines ! i)"
    using owner_self_iff [of "lines ! i"] f(1) by simp
  from f(2) have "extract_dates (lines ! i) ! 1 \<in> set (extract_dates (lines ! i))"
    by simp
  then have "length (extract_dates (lines ! i) ! 1) = 10"
    by (rule extract_dates_length)
  with f(3) have n: "notification_date t \<noteq> []"
    by auto
  from i p o s f(2) f(3) n show ?thesis
    by blast
qed

theorem emitted_owner_and_notification_date_witness:
  "\<lparr>asset = ''AAPL Inc'', ticker = ''AAPL'', owner = ''Self'', owner_code = [],
     transaction_type = ''Purchase'', transaction_date = ''01/02/2024'',
     notification_date = ''01/05/2024'', amount = ''$1,001 - $15,000''\<rparr>
     \<in> set (extract_transactions_from_lines
         [''Filing ID #20030461'', ''AAPL Inc (AAPL) [ST] P 01/02/2024 01/05/2024 $15,000'']) \<and>
   (\<exists>i<length [''Filing ID #20030461'', ''AAPL Inc (AAPL) [ST] P 01/02/2024 01/05/2024 $15,000''].
      extract_dates ([''Filing ID #20030461'',
         ''AAPL Inc (AAPL) [ST] P 01/02/2024 01/05/2024 $15,000''] ! i) ! 1 = ''01/05/2024'')"
proof -
  have m: "\<lparr>asset = ''AAPL Inc'', ticker = ''AAPL'', owner = ''Self'', owner_code = [],
     transaction_type = ''Purchase'', transaction_date = ''01/02/2024'',
     notification_date = ''01/05/2024'', amount = ''$1,001 - $15,000''\<rparr>
     \<in> set (extract_transactions_from_lines
         [''Filing ID #20030461'', ''AAPL Inc (AAPL) [ST] P 01/02/2024 01/05/2024 $15,000''])"
    by code_simp
  from emitted_owner_and_notification_date [OF m] m show ?thesis
    by auto
qed

section \<open>Acceptance of a candidate line\<close>

lemma ticker_search_sound:
  assumes "re_search ticker_pattern l = Some (pre, ps, post)"
  shows "has_ticker_token l \<and> ps ! 1 \<noteq> []"
proof -
  from re_search_sound [OF assms] obtain t where
    "l = pre @ concat ps @ post" "ps = [''('', t, '')'']" "t \<noteq> []" "list_all ticker_char t"
    by (auto simp: ticker_pattern_def list_all2_Cons1 length_Suc_conv)
  then show ?thesis
    unfolding has_ticker_token_def by (auto simp: list_all_iff)
qed

lemma star_greedy:
  "list_all p t \<Longrightarrow> rmatch (Star p # r) (acc @ t) s \<noteq> None \<Longrightarrow>
   rmatch (Star p # r) acc (t @ s) \<noteq> None"
proof (induction t arbitrary: acc)
  case Nil
  then show ?case by simp
next
  case (Cons c t)
  from Cons.prems have "rmatch (Star p # r) ((acc @ [c]) @ t) s \<noteq> None"
    by simp
  with Cons.IH [of "acc @ [c]"] Cons.prems(1)
  have "rmatch (Star p # r) (acc @ [c]) (t @ s) \<noteq> None"
    by simp
  with Cons.prems(1) show ?case
    by auto
qed

lemma ticker_match_complete:
  assumes "t \<noteq> []" "list_all ticker_char t"
  shows "re_match ticker_pattern (''('' @ t @ '')'' @ post) \<noteq> None"
proof -
  from assms obtain c t' where t: "t = c # t'" "ticker_char c" "list_all ticker_char t'"
    by (cases t) auto
  have "\<not> ticker_char CHR '')''"
    by (simp add: ticker_char_def is_upper_def is_digit_def)
  then have "rmatch [Star ticker_char, One (\<lambda>c. c = CHR '')'')] ([c] @ t') ('')'' @ post) \<noteq> None"
    by simp
  with star_greedy [OF t(3)]
  have "rmatch [Star ticker_char, One (\<lambda>c. c = CHR '')'')] [c] (t' @ '')'' @ post) \<noteq> None"
    by blast
  with t show ?thesis
    by (simp add: re_match_def ticker_pattern_def)
qed

lemma re_search_complete:
  "re_match pat s \<noteq> None \<Longrightarrow> re_search pat (pre @ s) \<noteq> None"
proof (induction pre)
  case Nil
  then show ?case by (cases s) auto
next
  case (Cons c pre)
  then show ?case by (auto split: option.splits)
qed

lemma ticker_search_iff: "re_search ticker_pattern l \<noteq> None \<longleftrightarrow> has_ticker_token l"
proof
  assume "re_search ticker_pattern l \<noteq> None"
  then show "has_ticker_token l"
    using ticker_search_sound by (cases "re_search ticker_pattern l") auto
next
  assume "has_ticker_token l"
  then obtain pre t post where "l = pre @ ''('' @ t @ '')'' @ post" "t \<noteq> []" "list_all ticker_char t"
    unfolding has_ticker_token_def by (auto simp: list_all_iff)
  with ticker_match_complete [of t post] re_search_complete [of ticker_pattern _ pre]
  show "re_search ticker_pattern l \<noteq> None"
    by simp
qed

lemma find_ticker_None: "find_ticker ctx i = None \<longleftrightarrow> \<not> (\<exists>l\<in>set ctx. has_ticker_token l)"
proof (induction ctx arbitrary: i)
  case Nil
  then show ?case by simp
next
  case (Cons l ctx)
  then show ?case
    using ticker_search_iff [of l] by (cases "re_search ticker_pattern l") auto
qed

lemma asset_name_needs_ticker:
  assumes "snd (extract_asset_info line ctx) \<noteq> []"
  shows "\<exists>l\<in>set ctx. has_ticker_token l"
proof -
  from assms have "find_ticker ctx 0 \<noteq> None"
    by (cases "find_ticker ctx 0") (auto simp: extract_asset_info_def)
  then show ?thesis
    by (simp add: find_ticker_None)
qed

text \<open>
  Claim C7. Parsing a candidate line with its context window yields a record if and only if
  some window line holds a parenthesised ticker token, the asset name built from the
  window is not empty, the candidate line holds at least two date tokens, and an amount
  string was produced. The result is a whole record or nothing.
\<close>

theorem parse_transaction_line_accepts_iff:
  "parse_transaction_line line ctx \<noteq> None \<longleftrightarrow>
     (\<exists>l\<in>set ctx. has_ticker_token l) \<and>
     snd (extract_asset_info line ctx) \<noteq> [] \<and>
     2 \<le> length (extract_dates line) \<and>
     extract_and_categorize_amount line \<noteq> []"
proof
  assume "parse_transaction_line line ctx \<noteq> None"
  then obtain t where t: "parse_transaction_line line ctx = Some t"
    by auto
  from parse_transaction_line_Some(2,4,5) [OF t] asset_name_needs_ticker
  show "(\<exists>l\<in>set ctx. has_ticker_token l) \<and>
     snd (extract_asset_info line ctx) \<noteq> [] \<and>
     2 \<le> length (extract_dates line) \<and>
     extract_and_categorize_amount line \<noteq> []"
    by blast
next
  assume "(\<exists>l\<in>set ctx. has_ticker_token l) \<and>
     snd (extract_asset_info line ctx) \<noteq> [] \<and>
     2 \<le> length (extract_dates line) \<and>
     extract_and_categorize_amount line \<noteq> []"
  then show "parse_transaction_line line ctx \<noteq> None"
    by (auto simp: parse_transaction_line_def Let_def split: prod.splits)
qed

theorem parse_transaction_line_accepts_iff_witness:
  "parse_transaction_line ''AAPL Inc (AAPL) [ST] P 01/02/2024 01/05/2024 $15,000''
     [''AAPL Inc (AAPL) [ST] P 01/02/2024 01/05/2024 $15,000''] \<noteq> None \<and>
   (\<exists>l\<in>set [''AAPL Inc (AAPL) [ST] P 01/02/2024 01/05/2024 $15,000'']. has_ticker_token l) \<and>
   snd (extract_asset_info ''AAPL Inc (AAPL) [ST] P 01/02/2024 01/05/2024 $15,000''
     [''AAPL Inc (AAPL) [ST] P 01/02/2024 01/05/2024 $15,000'']) \<noteq> [] \<and>
   2 \<le> length (extract_dates ''AAPL Inc (AAPL) [ST] P 01/02/2024 01/05/2024 $15,000'') \<and>
   extract_and_categorize_amount ''AAPL Inc (AAPL) [ST] P 01/02/2024 01/05/2024 $15,000'' \<noteq> []"
proof -
  have "parse_transaction_line ''AAPL Inc (AAPL) [ST] P 01/02/2024 01/05/2024 $15,000''
     [''AAPL Inc (AAPL) [ST] P 01/02/2024 01/05/2024 $15,000''] \<noteq> None"
    by code_simp
  with parse_transaction_line_accepts_iff
    [of "''AAPL Inc (AAPL) [ST] P 01/02/2024 01/05/2024 $15,000''"
        "[''AAPL Inc (AAPL) [ST] P 01/02/2024 01/05/2024 $15,000'']"]
  show ?thesis by blast
qed

section \<open>Marking a filing processed\<close>

lemma update_filings_flag:
  "snd (update_filings f url xs) \<longleftrightarrow> url \<in> pdf_link ` set xs"
  by (induction xs) (auto split: prod.splits)

lemma map_if_id:
  "\<forall>y\<in>set xs. pdf_link y \<noteq> url \<Longrightarrow>
   map (\<lambda>y. if pdf_link y = url then f y else y) xs = xs"
  by (induction xs) auto

lemma update_filings_map:
  assumes "distinct (map pdf_link xs)" "\<And>x. pdf_link (f x) = pdf_link x"
  shows "fst (update_filings f url xs) = map (\<lambda>y. if pdf_link y = url then f y else y) xs"
  using assms(1)
proof (induction xs)
  case Nil
  then show ?case by simp
next
  case (Cons x xs)
  show ?case
  proof (cases "pdf_link x = url")
    case True
    from Cons.prems have "pdf_link x \<notin> pdf_link ` set xs"
      by simp
    with True have "\<forall>y\<in>set xs. pdf_link y \<noteq> url"
      by blast
    then have "map (\<lambda>y. if pdf_link y = url then f y else y) xs = xs"
      by (rule map_if_id)
    with True show ?thesis by simp
  next
    case False
    obtain xs' b where u: "update_filings f url xs = (xs', b)"
      by (cases "update_filings f url xs")
    with False Cons show ?thesis
      by simp
  qed
qed

lemma update_members_flag:
  "snd (update_members f url ms) \<longleftrightarrow> url \<in> pdf_link ` set (all_filings ms)"
proof (induction ms)
  case Nil
  then show ?case by (simp add: all_filings_def)
next
  case (Cons km ms)
  obtain k m where km: "km = (k, m)" by (cases km)
  show ?case
    using Cons.IH update_filings_flag [of f url "filings m"]
    by (auto simp: km all_filings_def split: prod.splits)
qed

lemma update_members_map:
  assumes "distinct (map pdf_link (all_filings ms))" "\<And>x. pdf_link (f x) = pdf_link x"
  shows "all_filings (fst (update_members f url ms))
           = map (\<lambda>y. if pdf_link y = url then f y else y) (all_filings ms)"
  using assms(1)
proof (induction ms)
  case Nil
  then show ?case by (simp add: all_filings_def)
next
  case (Cons km ms)
  obtain k m where km: "km = (k, m)" by (cases km)
  from Cons.prems have d: "distinct (map pdf_link (filings m))"
    "distinct (map pdf_link (all_filings ms))"
    "pdf_link ` set (filings m) \<inter> pdf_link ` set (all_filings ms) = {}"
    by (auto simp: km all_filings_def)
  obtain fs' b where uf: "update_filings f url (filings m) = (fs', b)"
    by (cases "update_filings f url (filings m)")
  obtain ms' b' where um: "update_members f url ms = (ms', b')"
    by (cases "update_members f url ms")
  from update_filings_map [OF d(1) assms(2), of url] uf
  have here: "fs' = map (\<lambda>y. if pdf_link y = url then f y else y) (filings m)"
    by simp
  show ?case
  proof (cases b)
    case True
    with uf update_filings_flag [of f url "filings m"] have "url \<in> pdf_link ` set (filings m)"
      by simp
    with d(3) have "\<forall>y\<in>set (all_filings ms). pdf_link y \<noteq> url"
      by force
    then have "map (\<lambda>y. if pdf_link y = url then f y else y) (all_filings ms) = all_filings ms"
      by (rule map_if_id)
    with True here uf show ?thesis
      by (simp add: km all_filings_def)
  next
    case False
    with uf update_filings_flag [of f url "filings m"] have "url \<notin> pdf_link ` set (filings m)"
      by simp
    then have "\<forall>y\<in>set (filings m). pdf_link y \<noteq> url"
      by blast
    then have "map (\<lambda>y. if pdf_link y = url then f y else y) (filings m) = filings m"
      by (rule map_if_id)
    with False Cons.IH [OF d(2)] uf um show ?thesis
      by (simp add: km all_filings_def)
  qed
qed

lemma update_filings_unchanged:
  "\<not> snd (update_filings f url xs) \<Longrightarrow> fst (update_filings f url xs) = xs"
  by (induction xs) (auto split: prod.splits if_splits)

lemma update_members_unchanged:
  "\<not> snd (update_members f url ms) \<Longrightarrow> fst (update_members f url ms) = ms"
proof (induction ms)
  case Nil
  then show ?case by simp
next
  case (Cons km ms)
  obtain k m where km: "km = (k, m)" by (cases km)
  obtain fs' b where uf: "update_filings f url (filings m) = (fs', b)"
    by (cases "update_filings f url (filings m)")
  obtain ms' b' where um: "update_members f url ms = (ms', b')"
    by (cases "update_members f url ms")
  from Cons uf um show ?case
    by (cases b) (simp_all add: km)
qed

lemma mark_filing_processed_members:
  "\<exists>F. (\<forall>x. pdf_link (F x) = pdf_link x \<and> processing_status (F x) = Some ''processed'') \<and>
       members (read_congress_data (mark_filing_processed now url result st))
         = fst (update_members F url (members (read_congress_data st)))"
proof -
  define F :: "filing \<Rightarrow> filing" where "F = (\<lambda>x. let x = x\<lparr>processing_status := Some ''processed'', processed_at := Some now\<rparr>
                    in (case result of
                          None \<Rightarrow> x
                        | Some r \<Rightarrow>
                            if result_error r = None \<or> result_error r = Some []
                            then x\<lparr>has_stock_transactions :=
                                     Some ((case transaction_count r of None \<Rightarrow> 0 | Some n \<Rightarrow> n) > 0)\<rparr>
                            else x))"
  have p: "\<forall>x. pdf_link (F x) = pdf_link x \<and> processing_status (F x) = Some ''processed''"
    by (simp add: F_def Let_def split: option.splits)
  obtain ms' b where um: "update_members F url (members (read_congress_data st)) = (ms', b)"
    by (cases "update_members F url (members (read_congress_data st))")
  have "members (read_congress_data (mark_filing_processed now url result st)) = ms'"
  proof (cases b)
    case True
    with um show ?thesis
      unfolding mark_filing_processed_def F_def [symmetric]
      by (simp add: Let_def save_congress_data_def save_trading_data_def read_congress_data_def)
  next
    case False
    with um update_members_unchanged [of F url "members (read_congress_data st)"]
    have "ms' = members (read_congress_data st)"
      by simp
    with False um show ?thesis
      unfolding mark_filing_processed_def F_def [symmetric]
      by (simp add: Let_def save_congress_data_def save_trading_data_def read_congress_data_def)
  qed
  with p um show ?thesis
    by auto
qed

lemma mark_filing_processed_pending:
  "pending_processing (read_trading_data (mark_filing_processed now url result st))
     = filter (\<lambda>item. pdf_url item \<noteq> url) (pending_processing (read_trading_data st))"
  by (simp add: mark_filing_processed_def Let_def save_congress_data_def save_trading_data_def
      read_trading_data_def split: prod.splits option.splits)

lemma in_all_filings:
  "(k, m) \<in> set ms \<Longrightarrow> x \<in> set (filings m) \<Longrightarrow> x \<in> set (all_filings ms)"
  by (auto simp: all_filings_def)

lemma identify_pending_filings_sources:
  assumes "i \<in> set (fst (identify_pending_filings st))"
  shows "\<exists>y\<in>set (registry_filings st). needs_processing y \<and> pdf_url i = pdf_link y"
proof -
  from assms obtain k m x where "(k, m) \<in> set (members (read_congress_data st))"
    "x \<in> set (filings m)" "needs_processing x" "pdf_url i = pdf_link x"
    by (auto simp: identify_pending_filings_def Let_def)
  with in_all_filings [of k m "members (read_congress_data st)" x] show ?thesis
    unfolding registry_filings_def by blast
qed

text \<open>
  Claim C1, as stated, fails on a registry in which two filings share the link: the loops
  stop at the first filing with the link, so the second one, here without status, keeps
  its state and the link is still reported as pending.
\<close>

theorem mark_filing_processed_duplicate_link_counterexample:
  "duplicate_filing \<in> set (registry_filings duplicate_store) \<and>
   pdf_link duplicate_filing = sample_link \<and>
   needs_processing duplicate_filing \<and>
   map pdf_url (pending_processing (read_trading_data duplicate_store)) = [sample_link] \<and>
   map pdf_link (registry_filings
     (mark_filing_processed ''2024-05-01T10:00:00'' sample_link None duplicate_store))
     = [sample_link, sample_link] \<and>
   map processing_status (registry_filings
     (mark_filing_processed ''2024-05-01T10:00:00'' sample_link None duplicate_store))
     = [Some ''processed'', None] \<and>
   map pdf_url (fst (identify_pending_filings
     (mark_filing_processed ''2024-05-01T10:00:00'' sample_link None duplicate_store)))
     = [sample_link]"
  by (simp add: duplicate_store_def duplicate_filing_def sample_store_def sample_filing_def
      registry_filings_def all_filings_def read_congress_data_def read_trading_data_def
      needs_processing_def STATUS_PENDING_def mark_filing_processed_def Let_def
      save_congress_data_def save_trading_data_def identify_pending_filings_def)

text \<open>
  Claim C1, amended. In a registry whose source links are unique (the invariant of the data
  model), let a filing with link \<open>url\<close> be pending or without status. After
  \<open>mark_filing_processed\<close> for \<open>url\<close>, whatever the ledger and the result, the registry
  still holds the filing with that link and its status is \<open>processed\<close>, no entry of the
  pending queue has the link, and no filing returned by \<open>identify_pending_filings\<close> has
  it.
\<close>

theorem mark_filing_processed_ends_pending:
  assumes "links_unique st"
    and "x \<in> set (registry_filings st)" and "pdf_link x = url" and "needs_processing x"
  shows "(\<exists>y\<in>set (registry_filings (mark_filing_processed now url result st)). pdf_link y = url) \<and>
         (\<forall>y\<in>set (registry_filings (mark_filing_processed now url result st)).
            pdf_link y = url \<longrightarrow> processing_status y = Some ''processed'') \<and>
         (\<forall>e\<in>set (pending_processing (read_trading_data (mark_filing_processed now url result st))).
            pdf_url e \<noteq> url) \<and>
         (\<forall>i\<in>set (fst (identify_pending_filings (mark_filing_processed now url result st))).
            pdf_url i \<noteq> url)"
proof -
  let ?st' = "mark_filing_processed now url result st"
  from mark_filing_processed_members [of now url result st] obtain F where
    F: "\<And>y. pdf_link (F y) = pdf_link y" "\<And>y. processing_status (F y) = Some ''processed''"
    and m: "members (read_congress_data ?st')
              = fst (update_members F url (members (read_congress_data st)))"
    by blast
  from assms(1) have "distinct (map pdf_link (all_filings (members (read_congress_data st))))"
    by (simp add: links_unique_def registry_filings_def)
  from update_members_map [OF this F(1), of url] m
  have r: "registry_filings ?st'
             = map (\<lambda>y. if pdf_link y = url then F y else y) (registry_filings st)"
    by (simp add: registry_filings_def)
  from assms(2,3) F(1) have a: "\<exists>y\<in>set (registry_filings ?st'). pdf_link y = url"
    unfolding r by force
  have b: "\<forall>y\<in>set (registry_filings ?st'). pdf_link y = url \<longrightarrow> processing_status y = Some ''processed''"
    unfolding r using F by (auto split: if_splits)
  have c: "\<forall>e\<in>set (pending_processing (read_trading_data ?st')). pdf_url e \<noteq> url"
    by (simp add: mark_filing_processed_pending)
  have d: "\<forall>i\<in>set (fst (identify_pending_filings ?st')). pdf_url i \<noteq> url"
  proof
    fix i assume "i \<in> set (fst (identify_pending_filings ?st'))"
    from identify_pending_filings_sources [OF this] obtain y where
      y: "y \<in> set (registry_filings ?st')" "needs_processing y" "pdf_url i = pdf_link y"
      by blast
    show "pdf_url i \<noteq> url"
    proof
      assume "pdf_url i = url"
      with y b have "processing_status y = Some ''processed''"
        by simp
      with y(2) show False
        by (simp add: needs_processing_def STATUS_PENDING_def)
    qed
  qed
  from a b c d show ?thesis by blast
qed

theorem mark_filing_processed_ends_pending_witness:
  "links_unique sample_store \<and>
   sample_filing \<in> set (registry_filings sample_store) \<and>
   pdf_link sample_filing = sample_link \<and>
   needs_processing sample_filing \<and>
   (\<exists>y\<in>set (registry_filings
       (mark_filing_processed ''2024-05-01T10:00:00'' sample_link None sample_store)).
      pdf_link y = sample_link \<and> processing_status y = Some ''processed'')"
proof -
  have u: "links_unique sample_store"
    by (simp add: links_unique_def registry_filings_def all_filings_def read_congress_data_def
        sample_store_def)
  have m: "sample_filing \<in> set (registry_filings sample_store)"
    by (simp add: registry_filings_def all_filings_def read_congress_data_def sample_store_def)
  have l: "pdf_link sample_filing = sample_link"
    by (simp add: sample_filing_def)
  have n: "needs_processing sample_filing"
    by (simp add: needs_processing_def STATUS_PENDING_def sample_filing_def)
  from mark_filing_processed_ends_pending [OF u m l n, of "''2024-05-01T10:00:00''" None] u m l n
  show ?thesis by blast
qed

end
